theory Spec2Isabelle
  imports Main "HOL-Library.AList"
begin

section \<open>Python strings\<close>

text \<open>
  A Python \<open>str\<close> is a sequence of Unicode code points, so it is modelled as a list of
  naturals (a well-formed one has every element below \<open>0x110000\<close>). \<open>py\<close> turns an
  ASCII literal of this file into such a list.
\<close>

type_synonym pystr = "nat list"

definition py :: "string \<Rightarrow> pystr" where
  "py s = map of_char s"

definition is_str :: "pystr \<Rightarrow> bool" where
  "is_str s = list_all (\<lambda>c. c < 0x110000) s"

text \<open>
  \<open>str.lower()\<close>. ASCII capitals go to their small letters. Exactly two code points
  outside ASCII have a lowercase form that contains ASCII letters (U+0130 and the Kelvin
  sign U+212A); they are mapped as Unicode does. Every other code point is left as it is:
  \<open>str.lower()\<close> sends it to code points outside ASCII again, which is all that a
  comparison with the ASCII words of this program can observe.
\<close>

definition lower_cp :: "nat \<Rightarrow> pystr" where
  "lower_cp c =
     (if 65 \<le> c \<and> c \<le> 90 then [c + 32]
      else if c = 0x130 then [0x69, 0x307]
      else if c = 0x212A then [0x6B]
      else [c])"

definition py_lower :: "pystr \<Rightarrow> pystr" where
  "py_lower s = concat (map lower_cp s)"

text \<open>\<open>str.isspace()\<close> of one code point, and \<open>str.strip()\<close> without argument.\<close>

definition py_isspace :: "nat \<Rightarrow> bool" where
  "py_isspace c =
     ((9 \<le> c \<and> c \<le> 13) \<or> (28 \<le> c \<and> c \<le> 32) \<or> c = 0x85 \<or> c = 0xA0 \<or> c = 0x1680
      \<or> (0x2000 \<le> c \<and> c \<le> 0x200A) \<or> c = 0x2028 \<or> c = 0x2029 \<or> c = 0x202F
      \<or> c = 0x205F \<or> c = 0x3000)"

definition py_strip :: "pystr \<Rightarrow> pystr" where
  "py_strip s = rev (dropWhile py_isspace (rev (dropWhile py_isspace s)))"

text \<open>\<open>s.startswith(p)\<close> and \<open>sep.join(xs)\<close>.\<close>

definition startswith :: "pystr \<Rightarrow> pystr \<Rightarrow> bool" where
  "startswith s p = (take (length p) s = p)"

fun join :: "pystr \<Rightarrow> pystr list \<Rightarrow> pystr" where
  "join sep [] = []"
| "join sep [x] = x"
| "join sep (x # y # ys) = x @ sep @ join sep (y # ys)"

text \<open>\<open>str(n)\<close> of an \<open>int\<close>, as an f-string formats it: decimal, \<open>-\<close> for a negative one.\<close>

fun digits :: "nat \<Rightarrow> pystr" where
  "digits n = (if n < 10 then [48 + n] else digits (n div 10) @ [48 + n mod 10])"

declare digits.simps [simp del]

definition str_int :: "int \<Rightarrow> pystr" where
  "str_int i = (if i < 0 then 45 # digits (nat (- i)) else digits (nat i))"

section \<open>Data model\<close>

datatype PermissionLevel = BASIC | ELEVATED | ADMINISTRATIVE

fun PermissionLevel_value :: "PermissionLevel \<Rightarrow> pystr" where
  "PermissionLevel_value BASIC = py ''basic''"
| "PermissionLevel_value ELEVATED = py ''elevated''"
| "PermissionLevel_value ADMINISTRATIVE = py ''administrative''"

datatype OperationResult =
  SUCCESS | PERMISSION_DENIED | ESCALATION_FAILED | OPERATION_FAILED | USER_CANCELLED

fun OperationResult_value :: "OperationResult \<Rightarrow> pystr" where
  "OperationResult_value SUCCESS = py ''success''"
| "OperationResult_value PERMISSION_DENIED = py ''permission_denied''"
| "OperationResult_value ESCALATION_FAILED = py ''escalation_failed''"
| "OperationResult_value OPERATION_FAILED = py ''operation_failed''"
| "OperationResult_value USER_CANCELLED = py ''user_cancelled''"

text \<open>A \<open>Dict[str, str]\<close>: an association list in insertion order, keys unique.\<close>

type_synonym pydict = "(pystr \<times> pystr) list"

record PrivilegedOperation =
  command :: "pystr list"
  description :: pystr
  permission_level :: PermissionLevel
  requires_user_approval :: bool
  timeout :: int
  working_directory :: "pystr option"
  environment :: "pydict option"

section \<open>Command classifier\<close>

definition elevated_commands :: "pystr list" where
  "elevated_commands = map py
     [''sudo'', ''doas'', ''su'', ''apt'', ''apt-get'', ''yum'', ''dnf'', ''pacman'',
      ''systemctl'', ''service'', ''mount'', ''umount'', ''fdisk'', ''mkfs'',
      ''useradd'', ''usermod'', ''userdel'', ''chmod'', ''chown'', ''visudo'',
      ''pip'', ''conda'', ''npm'', ''yarn'']"

definition admin_commands :: "pystr list" where
  "admin_commands = map py
     [''crontab'', ''iptables'', ''ufw'', ''firewall-cmd'', ''sysctl'',
      ''hostnamectl'', ''timedatectl'', ''localectl'']"

definition privileged_paths :: "pystr list" where
  "privileged_paths = map py [''/etc'', ''/usr/local'', ''/opt'', ''/var'', ''/root'']"

text \<open>
  \<open>any(arg.startswith(path) for arg in command for path in privileged_paths)\<close>: every
  element of the command is looked at, the first one included.
\<close>

definition touches_privileged_path :: "pystr list \<Rightarrow> bool" where
  "touches_privileged_path cmd =
     list_ex (\<lambda>arg. list_ex (\<lambda>path. startswith arg path) privileged_paths) cmd"

definition analyze_command_permissions :: "pystr list \<Rightarrow> PermissionLevel" where
  "analyze_command_permissions cmd =
     (case cmd of
        [] \<Rightarrow> BASIC
      | c0 # _ \<Rightarrow>
          (let first_cmd = py_lower c0
           in if first_cmd \<in> set admin_commands then ADMINISTRATIVE
              else if first_cmd \<in> set elevated_commands then ELEVATED
              else if touches_privileged_path cmd then ELEVATED
              else BASIC))"

section \<open>Dates, floats, audit entries\<close>

text \<open>
  A naive \<open>datetime\<close>, as \<open>datetime.now()\<close> returns it, and its \<open>isoformat()\<close>:
  \<open>YYYY-MM-DDTHH:MM:SS\<close>, followed by \<open>.ffffff\<close> when the microseconds are not zero.
\<close>

record datetime =
  year :: nat
  month :: nat
  day :: nat
  hour :: nat
  minute :: nat
  second :: nat
  microsecond :: nat

definition zpad :: "nat \<Rightarrow> nat \<Rightarrow> pystr" where
  "zpad w n = replicate (w - length (digits n)) 48 @ digits n"

definition isoformat :: "datetime \<Rightarrow> pystr" where
  "isoformat d =
     zpad 4 (year d) @ py ''-'' @ zpad 2 (month d) @ py ''-'' @ zpad 2 (day d) @ py ''T''
     @ zpad 2 (hour d) @ py '':'' @ zpad 2 (minute d) @ py '':'' @ zpad 2 (second d)
     @ (if microsecond d = 0 then [] else py ''.'' @ zpad 6 (microsecond d))"

text \<open>
  A finite \<open>float\<close>. The program computes one (\<open>total_seconds()\<close> of a \<open>timedelta\<close>)
  and only ever prints it, so it is kept as the decimal literal \<open>float.__repr__\<close> shows:
  sign, integer part, digits after the point (none: no point) and exponent (none: no
  \<open>e\<close> part).
\<close>

record pyfloat =
  negative :: bool
  whole :: nat
  fraction :: "nat list"
  exponent :: "int option"

definition float_repr :: "pyfloat \<Rightarrow> pystr" where
  "float_repr f =
     (if negative f then py ''-'' else [])
     @ digits (whole f)
     @ (if fraction f = [] then [] else 46 # map (\<lambda>d. 48 + d mod 10) (fraction f))
     @ (case exponent f of
          None \<Rightarrow> []
        | Some e \<Rightarrow> 101 # (if e < 0 then 45 else 43) # zpad 2 (nat \<bar>e\<bar>))"

text \<open>
  \<open>AuditEntry\<close>. Its \<open>details\<close> dictionary always has the four keys that
  \<open>_log_operation\<close> gives it, so it is a record too. The fields \<open>permission_level\<close>,
  \<open>description\<close> and \<open>working_directory\<close> carry a prefix here, since
  \<open>PrivilegedOperation\<close> has fields of the same names.
\<close>

record audit_details =
  detail_description :: pystr
  duration_seconds :: pyfloat
  message :: pystr
  detail_working_directory :: "pystr option"

record AuditEntry =
  timestamp :: datetime
  operation :: pystr
  entry_permission_level :: pystr
  result :: pystr
  user :: pystr
  details :: audit_details

section \<open>JSON text\<close>

text \<open>
  The values \<open>json.loads\<close> returns and \<open>json.dumps\<close> takes. A number is kept as its
  literal text (Python would make an \<open>int\<close> or a \<open>float\<close> of it; the program never
  computes with one); \<open>NaN\<close>, \<open>Infinity\<close> and \<open>-Infinity\<close> are numbers of that kind.
  An object is the list of its members in the order of the text; Python's \<open>dict\<close>
  keeps the last value of a repeated key, which \<open>getitem\<close> below does.
\<close>

datatype json =
  JNull
| JBool bool
| JNum pystr
| JStr pystr
| JArr "json list"
| JObj "(pystr \<times> json) list"

text \<open>
  \<open>json.dumps\<close> with its defaults (\<open>ensure_ascii=True\<close>, separators \<open>", "\<close> and
  \<open>": "\<close>). In a string, backslash, double quote and the control characters with a
  short escape get it; printable ASCII stands for itself; every other code point below
  \<open>0x10000\<close> becomes \<open>\uXXXX\<close> with four lowercase hexadecimal digits, and one above
  becomes the two escapes of its UTF-16 surrogate pair
  (\<open>s1 = 0xd800 | ((n >> 10) & 0x3ff)\<close>, \<open>s2 = 0xdc00 | (n & 0x3ff)\<close> for
  \<open>n = c - 0x10000\<close>, written here with \<open>div\<close> and \<open>mod\<close>).
\<close>

definition hex_digit :: "nat \<Rightarrow> nat" where
  "hex_digit d = (if d < 10 then 48 + d else 87 + d)"

definition hex4 :: "nat \<Rightarrow> pystr" where
  "hex4 n = [hex_digit (n div 4096 mod 16), hex_digit (n div 256 mod 16),
             hex_digit (n div 16 mod 16), hex_digit (n mod 16)]"

definition escape_cp :: "nat \<Rightarrow> pystr" where
  "escape_cp c =
     (if c = 92 then [92, 92]
      else if c = 34 then [92, 34]
      else if c = 8 then [92, 98]
      else if c = 12 then [92, 102]
      else if c = 10 then [92, 110]
      else if c = 13 then [92, 114]
      else if c = 9 then [92, 116]
      else if 32 \<le> c \<and> c \<le> 126 then [c]
      else if c < 0x10000 then [92, 117] @ hex4 c
      else [92, 117] @ hex4 (0xD800 + (c - 0x10000) div 0x400 mod 0x400)
           @ [92, 117] @ hex4 (0xDC00 + (c - 0x10000) mod 0x400))"

definition encode_basestring_ascii :: "pystr \<Rightarrow> pystr" where
  "encode_basestring_ascii s = 34 # concat (map escape_cp s) @ [34]"

fun json_dumps :: "json \<Rightarrow> pystr" where
  "json_dumps JNull = py ''null''"
| "json_dumps (JBool b) = (if b then py ''true'' else py ''false'')"
| "json_dumps (JNum l) = l"
| "json_dumps (JStr s) = encode_basestring_ascii s"
| "json_dumps (JArr xs) = py ''['' @ join (py '', '') (map json_dumps xs) @ py '']''"
| "json_dumps (JObj ps) =
     py ''{''
     @ join (py '', '')
         (map (\<lambda>p. encode_basestring_ascii (fst p) @ py '': '' @ json_dumps (snd p)) ps)
     @ py ''}''"

text \<open>The dictionary \<open>log_entry\<close> that \<open>_log_operation\<close> builds from an entry.\<close>

definition log_entry :: "AuditEntry \<Rightarrow> json" where
  "log_entry e =
     JObj [(py ''timestamp'', JStr (isoformat (timestamp e))),
           (py ''operation'', JStr (operation e)),
           (py ''permission_level'', JStr (entry_permission_level e)),
           (py ''result'', JStr (result e)),
           (py ''user'', JStr (user e)),
           (py ''details'',
            JObj [(py ''description'', JStr (detail_description (details e))),
                  (py ''duration_seconds'', JNum (float_repr (duration_seconds (details e)))),
                  (py ''message'', JStr (message (details e))),
                  (py ''working_directory'',
                   (case detail_working_directory (details e) of
                      None \<Rightarrow> JNull
                    | Some d \<Rightarrow> JStr d))])]"

section \<open>The permission manager and its surroundings\<close>

text \<open>
  What one call of \<open>execute_with_escalation\<close> meets outside the program: the two
  readings of the clock (the start time, and the seconds elapsed when the entry is
  made), the environment of the process, what \<open>subprocess.Popen\<close> and
  \<open>communicate(timeout=...)\<close> do, what \<open>process.kill()\<close> does, whether the append to
  the audit file works, and what the logging module does with each record.

  \<open>Process_exits rc out err\<close>: the process was started and exited in time.
  \<open>Timeout_expired\<close>: \<open>communicate\<close> raised \<open>TimeoutExpired\<close>, the process did not
  exit within the timeout. \<open>Permission_error\<close>: a \<open>PermissionError\<close> was raised.
  \<open>Other_exception m\<close>: any other \<open>Exception\<close> was raised, \<open>m\<close> its \<open>str()\<close>.
  Signals that interrupt the interpreter (\<open>KeyboardInterrupt\<close>) are not modelled.

  \<open>Kill_ok\<close>: \<open>process.kill()\<close> returns, the process is terminated. \<open>Kill_raises\<close>: it
  raises (the signal may not be sent to the process of another user, which a command
  under \<open>sudo\<close> is), and the process goes on running.

  \<open>Write_ok\<close>: the line is appended to the audit file. \<open>Write_fails m\<close>: \<open>open\<close> or
  \<open>write\<close> raised an exception, \<open>m\<close> its \<open>str()\<close>, and the file is as it was. A write
  that fails after a part of the line has reached the file is not modelled.
\<close>

datatype proc_outcome =
  Process_exits int pystr pystr
| Timeout_expired
| Permission_error
| Other_exception pystr

datatype kill_outcome = Kill_ok | Kill_raises

datatype write_outcome = Write_ok | Write_fails pystr

text \<open>
  \<open>setup_logging\<close> gives the root logger two handlers, a \<open>FileHandler\<close> on the audit
  file itself and a \<open>StreamHandler\<close> on standard output, with the format
  \<open>%(asctime)s - %(levelname)s - %(message)s\<close>. What a record given to \<open>self.logger\<close>
  meets: the text the formatter puts for \<open>%(asctime)s\<close>, and for each handler whether
  its write works. An exception in a handler is caught by the logging module
  (\<open>Handler.handleError\<close>) and never reaches the program; a handler that is not there
  (\<open>basicConfig\<close> does nothing when the root logger already has handlers) is one whose
  writes never work.
\<close>

record log_handling =
  asctime :: pystr
  file_handler_writes :: bool
  stream_handler_writes :: bool

text \<open>
  \<open>handling w n\<close> is for the \<open>n\<close>-th record of the call: records 0 and 1 are the two
  \<open>logger.info\<close> calls at its start, record 2 is the \<open>logger.error\<close> of a failed append.
\<close>

record surroundings =
  clock_start :: datetime
  elapsed :: pyfloat
  os_environ :: pydict
  process :: proc_outcome
  kill :: kill_outcome
  log_write :: write_outcome
  handling :: "nat \<Rightarrow> log_handling"

datatype log_level = INFO | ERROR

fun levelname :: "log_level \<Rightarrow> pystr" where
  "levelname INFO = py ''INFO''"
| "levelname ERROR = py ''ERROR''"

datatype py_exception = EOFError | KeyError pystr | TypeError

text \<open>
  The state a call works on. Of the manager: \<open>current_user\<close>, \<open>is_privileged\<close>,
  \<open>session_operations\<close>, and the records handed to \<open>self.logger\<close>, level and message.
  Of the system: the text of the audit file (\<open>None\<close>: there is no file of that name),
  standard input as the lines still to come (\<open>stdin s n = None\<close>: end of file at line
  \<open>n\<close>) with the number of lines read so far, what was written to standard output
  (each printed line, prompt and logged line an element, without its newline), the
  calls of \<open>subprocess.Popen\<close> (command, working directory, environment), the number
  of calls of \<open>process.kill()\<close>, and the commands of the processes that timed out and
  are still running because \<open>kill()\<close> failed on them.
\<close>

record state =
  current_user :: pystr
  is_privileged :: bool
  session_operations :: "AuditEntry list"
  logger :: "(log_level \<times> pystr) list"
  log_file :: "pystr option"
  stdin :: "nat \<Rightarrow> pystr option"
  stdin_pos :: nat
  stdout :: "pystr list"
  popen_calls :: "(pystr list \<times> pystr option \<times> pydict) list"
  kill_calls :: nat
  survivors :: "pystr list list"

text \<open>
  \<open>self.logger.info(msg)\<close> and \<open>self.logger.error(msg)\<close>: the record goes to the two
  handlers in their order. The \<open>FileHandler\<close> holds the audit file open for appending
  since \<open>setup_logging\<close> and writes the formatted line and a newline to it (when the
  file of that name is gone, the line does not come back under the name); the
  \<open>StreamHandler\<close> writes the same to standard output. A handler whose write fails
  writes nothing.
\<close>

definition format_record :: "log_handling \<Rightarrow> log_level \<Rightarrow> pystr \<Rightarrow> pystr" where
  "format_record h lvl msg = asctime h @ py '' - '' @ levelname lvl @ py '' - '' @ msg"

definition file_handler_text :: "log_handling \<Rightarrow> log_level \<Rightarrow> pystr \<Rightarrow> pystr" where
  "file_handler_text h lvl msg =
     (if file_handler_writes h then format_record h lvl msg @ [10] else [])"

definition stream_handler_lines :: "log_handling \<Rightarrow> log_level \<Rightarrow> pystr \<Rightarrow> pystr list" where
  "stream_handler_lines h lvl msg =
     (if stream_handler_writes h then [format_record h lvl msg] else [])"

definition logger_log :: "state \<Rightarrow> log_level \<Rightarrow> pystr \<Rightarrow> log_handling \<Rightarrow> state" where
  "logger_log s lvl msg h =
     s\<lparr>logger := logger s @ [(lvl, msg)],
       log_file := map_option (\<lambda>text. text @ file_handler_text h lvl msg) (log_file s),
       stdout := stdout s @ stream_handler_lines h lvl msg\<rparr>"

text \<open>The two records at the start of \<open>execute_with_escalation\<close>.\<close>

definition log_attempt :: "state \<Rightarrow> PrivilegedOperation \<Rightarrow> surroundings \<Rightarrow> state" where
  "log_attempt s op w =
     logger_log
       (logger_log s INFO (py ''Attempting privileged operation: '' @ description op)
          (handling w 0))
       INFO (py ''Command: '' @ join (py '' '') (command op)) (handling w 1)"

definition check_permission_required :: "state \<Rightarrow> PrivilegedOperation \<Rightarrow> bool" where
  "check_permission_required s op =
     (if permission_level op = BASIC then False
      else if is_privileged s then False
      else True)"

text \<open>
  The \<open>while True\<close> loop of \<open>request_permission\<close>, on standard input (the lines and
  the number of them read so far) and standard output. \<open>input(prompt)\<close> writes the
  prompt and reads a line; at end of file it raises \<open>EOFError\<close>, which nothing catches.
  The loop ends only with a recognised answer or that exception: on an endless supply
  of other answers it runs forever, and the function has no value (\<open>None\<close>).
  \<open>answers_yes\<close> and \<open>answers_no\<close> are the two lists of recognised answers.
  Standard output is taken to accept every line: an exception of \<open>print\<close> itself (an
  output that cannot encode a character) is not modelled.
\<close>

definition answers_yes :: "pystr list" where
  "answers_yes = [py ''y'', py ''yes'']"

definition answers_no :: "pystr list" where
  "answers_no = [py ''n'', py ''no'', py '''']"

partial_function (option) ask_to_proceed ::
  "(nat \<Rightarrow> pystr option) \<Rightarrow> nat \<Rightarrow> pystr list
   \<Rightarrow> ((py_exception + bool) \<times> nat \<times> pystr list) option"
where
  "ask_to_proceed inp pos out =
     (let out1 = out @ [py ''Do you want to proceed? (y/N): '']
      in case inp pos of
           None \<Rightarrow> Some (Inl EOFError, pos, out1)
         | Some line \<Rightarrow>
             (let response = py_lower (py_strip line)
              in if response \<in> set answers_yes then Some (Inr True, Suc pos, out1)
                 else if response \<in> set answers_no then Some (Inr False, Suc pos, out1)
                 else ask_to_proceed inp (Suc pos)
                        (out1 @ [py ''Please enter 'y' or 'n'' @ [39]])))"

text \<open>What \<open>request_permission\<close> prints before it asks.\<close>

definition announcement :: "PrivilegedOperation \<Rightarrow> pystr list" where
  "announcement op =
     [[10, 0x1F512] @ py '' Privileged Operation Required'',
      py ''Description: '' @ description op,
      py ''Command: '' @ join (py '' '') (command op),
      py ''Permission Level: '' @ PermissionLevel_value (permission_level op)]
     @ (if permission_level op = ADMINISTRATIVE
        then [[0x26A0, 0xFE0F] @ py ''  This operation makes system-level changes'']
        else if permission_level op = ELEVATED
        then [[0x26A0, 0xFE0F] @ py ''  This operation requires elevated privileges'']
        else [])"

definition request_permission ::
  "state \<Rightarrow> PrivilegedOperation \<Rightarrow> (state \<times> (py_exception + bool)) option"
where
  "request_permission s op =
     (if \<not> requires_user_approval op then Some (s, Inr True)
      else
        (case ask_to_proceed (stdin s) (stdin_pos s) (stdout s @ announcement op) of
           None \<Rightarrow> None
         | Some (answer, pos, out) \<Rightarrow> Some (s\<lparr>stdin_pos := pos, stdout := out\<rparr>, answer)))"

text \<open>
  The answer of the consent gate alone: \<open>Some (Inr b)\<close> when it returns \<open>b\<close>,
  \<open>Some (Inl x)\<close> when it raises \<open>x\<close>, \<open>None\<close> when it never returns.
\<close>

definition consent :: "state \<Rightarrow> PrivilegedOperation \<Rightarrow> (py_exception + bool) option" where
  "consent s op = map_option snd (request_permission s op)"

text \<open>\<open>env.update(overlay)\<close>: a key already there keeps its place and gets the new value.\<close>

definition dict_update :: "pydict \<Rightarrow> pydict \<Rightarrow> pydict" where
  "dict_update env overlay = fold (\<lambda>kv m. AList.update (fst kv) (snd kv) m) overlay env"

text \<open>
  The \<open>AuditEntry\<close> that \<open>_log_operation\<close> constructs; \<open>usr\<close> is \<open>self.current_user\<close>.
\<close>

definition audit_entry ::
  "pystr \<Rightarrow> PrivilegedOperation \<Rightarrow> OperationResult \<Rightarrow> pystr \<Rightarrow> datetime \<Rightarrow> surroundings
   \<Rightarrow> AuditEntry"
where
  "audit_entry usr op res msg start_time w =
     \<lparr>timestamp = start_time,
      operation = join (py '' '') (command op),
      entry_permission_level = PermissionLevel_value (permission_level op),
      result = OperationResult_value res,
      user = usr,
      details = \<lparr>detail_description = description op,
                 duration_seconds = elapsed w,
                 message = msg,
                 detail_working_directory = working_directory op\<rparr>\<rparr>"

text \<open>
  \<open>_log_operation\<close>: the entry goes to the session history first; then the line is
  appended to the file (which \<open>open(..., 'a')\<close> makes when it is not there), and an
  exception of that write is caught and handed to the logger as an error.
\<close>

definition log_operation ::
  "state \<Rightarrow> PrivilegedOperation \<Rightarrow> OperationResult \<Rightarrow> pystr \<Rightarrow> datetime \<Rightarrow> surroundings
   \<Rightarrow> state"
where
  "log_operation s op res msg start_time w =
     (let entry = audit_entry (current_user s) op res msg start_time w;
          s1 = s\<lparr>session_operations := session_operations s @ [entry]\<rparr>
      in case log_write w of
           Write_ok \<Rightarrow>
             s1\<lparr>log_file :=
                  Some ((case log_file s1 of None \<Rightarrow> [] | Some text \<Rightarrow> text)
                        @ json_dumps (log_entry entry) @ [10])\<rparr>
         | Write_fails e \<Rightarrow>
             logger_log s1 ERROR (py ''Failed to write audit log: '' @ e) (handling w 2))"

text \<open>
  The \<open>try\<close> block of \<open>execute_with_escalation\<close> with its three handlers: the call of
  \<open>Popen\<close> and \<open>communicate\<close>, and the result and message each outcome is turned
  into. After a timeout \<open>process.kill()\<close> is called; an exception of \<open>kill()\<close> itself
  is swallowed by the bare \<open>except\<close> around it, and the process is then left running.
\<close>

definition run_process ::
  "state \<Rightarrow> pystr list \<Rightarrow> PrivilegedOperation \<Rightarrow> pydict \<Rightarrow> surroundings
   \<Rightarrow> state \<times> OperationResult \<times> pystr"
where
  "run_process s cmd op env w =
     (let s1 = s\<lparr>popen_calls := popen_calls s @ [(cmd, working_directory op, env)]\<rparr>
      in case process w of
           Process_exits returncode out err \<Rightarrow>
             if returncode = 0
             then (s1, SUCCESS, if out \<noteq> [] then out else py ''Operation completed successfully'')
             else (s1, OPERATION_FAILED,
                   py ''Command failed with return code '' @ str_int returncode @ py '': '' @ err)
         | Timeout_expired \<Rightarrow>
             (s1\<lparr>kill_calls := Suc (kill_calls s1),
                 survivors := (case kill w of
                                 Kill_ok \<Rightarrow> survivors s1
                               | Kill_raises \<Rightarrow> survivors s1 @ [cmd])\<rparr>,
              OPERATION_FAILED,
              py ''Operation timed out after '' @ str_int (timeout op) @ py '' seconds'')
         | Permission_error \<Rightarrow>
             (s1, PERMISSION_DENIED, py ''Permission denied - unable to execute command'')
         | Other_exception e \<Rightarrow>
             (s1, OPERATION_FAILED, py ''Unexpected error: '' @ e))"

text \<open>
  What follows the consent gate in \<open>execute_with_escalation\<close>: the command gets its
  \<open>sudo\<close> prefix, the environment its overlay (an empty or absent one changes
  nothing), the process is run and the outcome logged.
\<close>

definition execute_and_log ::
  "state \<Rightarrow> PrivilegedOperation \<Rightarrow> bool \<Rightarrow> datetime \<Rightarrow> surroundings
   \<Rightarrow> state \<times> OperationResult \<times> pystr"
where
  "execute_and_log s op needs_escalation start_time w =
     (let cmd = (if needs_escalation \<and> \<not> is_privileged s
                 then py ''sudo'' # command op else command op);
          env = (case environment op of
                   None \<Rightarrow> os_environ w
                 | Some overlay \<Rightarrow> dict_update (os_environ w) overlay)
      in case run_process s cmd op env w of
           (s1, res, msg) \<Rightarrow> (log_operation s1 op res msg start_time w, res, msg))"

definition execute_with_escalation ::
  "state \<Rightarrow> PrivilegedOperation \<Rightarrow> surroundings
   \<Rightarrow> (state \<times> (py_exception + OperationResult \<times> pystr)) option"
where
  "execute_with_escalation s op w =
     (let start_time = clock_start w;
          s1 = log_attempt s op w;
          needs_escalation = check_permission_required s1 op
      in if needs_escalation
         then (case request_permission s1 op of
                 None \<Rightarrow> None
               | Some (s2, Inl e) \<Rightarrow> Some (s2, Inl e)
               | Some (s2, Inr granted) \<Rightarrow>
                   if \<not> granted
                   then Some (log_operation s2 op USER_CANCELLED
                                (py ''User cancelled the operation'') start_time w,
                              Inr (USER_CANCELLED, py ''User cancelled the operation''))
                   else (case execute_and_log s2 op needs_escalation start_time w of
                           (s3, res, msg) \<Rightarrow> Some (s3, Inr (res, msg))))
         else (case execute_and_log s1 op needs_escalation start_time w of
                 (s3, res, msg) \<Rightarrow> Some (s3, Inr (res, msg))))"

definition get_session_history :: "state \<Rightarrow> AuditEntry list" where
  "get_session_history s = session_operations s"

text \<open>
  A session: calls of \<open>execute_with_escalation\<close> one after the other on the same
  manager, each with its operation and its surroundings. The caller goes on after a
  call that raised. The outcomes are returned in the order of the calls; the session
  has no value when one of its calls never returns.
\<close>

fun run_session ::
  "state \<Rightarrow> (PrivilegedOperation \<times> surroundings) list
   \<Rightarrow> (state \<times> (py_exception + OperationResult \<times> pystr) list) option"
where
  "run_session s [] = Some (s, [])"
| "run_session s (c # cs) =
     (case execute_with_escalation s (fst c) (snd c) of
        None \<Rightarrow> None
      | Some (s1, r) \<Rightarrow>
          (case run_session s1 cs of
             None \<Rightarrow> None
           | Some (s2, rs) \<Rightarrow> Some (s2, r # rs)))"

text \<open>
  The entries of the calls of a session that completed (returned a result), in the
  order of the calls.
\<close>

fun completed_entries ::
  "pystr \<Rightarrow> (PrivilegedOperation \<times> surroundings) list
   \<Rightarrow> (py_exception + OperationResult \<times> pystr) list \<Rightarrow> AuditEntry list"
where
  "completed_entries usr (c # cs) (r # rs) =
     (case r of
        Inl x \<Rightarrow> completed_entries usr cs rs
      | Inr (res, msg) \<Rightarrow>
          audit_entry usr (fst c) res msg (clock_start (snd c)) (snd c)
          # completed_entries usr cs rs)"
| "completed_entries usr cs rs = []"

section \<open>Reading JSON\<close>

text \<open>
  \<open>json.loads\<close> on a \<open>str\<close>, as CPython's scanner does it: the grammar of JSON with
  white space (space, tab, line feed, carriage return) allowed around every token, the
  constants \<open>NaN\<close>, \<open>Infinity\<close> and \<open>-Infinity\<close> accepted, and a leading byte order
  mark refused. \<open>None\<close> stands for \<open>JSONDecodeError\<close>. The limits of the interpreter
  (recursion depth, the longest integer literal) are not modelled.
\<close>

definition is_ws :: "nat \<Rightarrow> bool" where
  "is_ws c = (c = 32 \<or> c = 9 \<or> c = 10 \<or> c = 13)"

definition skip_ws :: "pystr \<Rightarrow> pystr" where
  "skip_ws s = dropWhile is_ws s"

definition is_digit :: "nat \<Rightarrow> bool" where
  "is_digit c = (48 \<le> c \<and> c \<le> 57)"

definition hex_value :: "nat \<Rightarrow> nat option" where
  "hex_value c =
     (if 48 \<le> c \<and> c \<le> 57 then Some (c - 48)
      else if 97 \<le> c \<and> c \<le> 102 then Some (c - 87)
      else if 65 \<le> c \<and> c \<le> 70 then Some (c - 55)
      else None)"

text \<open>The four hexadecimal digits after \<open>\u\<close>.\<close>

definition decode_uXXXX :: "pystr \<Rightarrow> nat option" where
  "decode_uXXXX s =
     (case s of
        a # b # c # d # _ \<Rightarrow>
          (case (hex_value a, hex_value b, hex_value c, hex_value d) of
             (Some x3, Some x2, Some x1, Some x0) \<Rightarrow> Some (4096 * x3 + 256 * x2 + 16 * x1 + x0)
           | _ \<Rightarrow> None)
      | _ \<Rightarrow> None)"

definition backslash :: "nat \<Rightarrow> nat option" where
  "backslash e =
     (if e = 34 then Some 34
      else if e = 92 then Some 92
      else if e = 47 then Some 47
      else if e = 98 then Some 8
      else if e = 102 then Some 12
      else if e = 110 then Some 10
      else if e = 114 then Some 13
      else if e = 116 then Some 9
      else None)"

definition cons_char :: "nat \<Rightarrow> (pystr \<times> pystr) option \<Rightarrow> (pystr \<times> pystr) option" where
  "cons_char c r = (case r of None \<Rightarrow> None | Some (s, rest) \<Rightarrow> Some (c # s, rest))"

text \<open>
  \<open>scanstring\<close>, from behind the opening quote: the string and the text behind its
  closing quote. A control character is an error (strict mode). A \<open>\uXXXX\<close> escape of
  a high surrogate that is followed by the escape of a low surrogate is read with it
  as one code point.
\<close>

fun scanstring :: "pystr \<Rightarrow> (pystr \<times> pystr) option" where
  "scanstring [] = None"
| "scanstring (c # cs) =
     (if c = 34 then Some ([], cs)
      else if c = 92 then
        (case cs of
           [] \<Rightarrow> None
         | e # es \<Rightarrow>
             if e = 117 then
               (case decode_uXXXX es of
                  None \<Rightarrow> None
                | Some uni \<Rightarrow>
                    if 0xD800 \<le> uni \<and> uni \<le> 0xDBFF \<and> take 2 (drop 4 es) = [92, 117] then
                      (case decode_uXXXX (drop 6 es) of
                         None \<Rightarrow> None
                       | Some uni2 \<Rightarrow>
                           if 0xDC00 \<le> uni2 \<and> uni2 \<le> 0xDFFF
                           then cons_char (0x10000 + ((uni - 0xD800) * 0x400 + (uni2 - 0xDC00)))
                                  (scanstring (drop 10 es))
                           else cons_char uni (scanstring (drop 4 es)))
                    else cons_char uni (scanstring (drop 4 es)))
             else
               (case backslash e of
                  None \<Rightarrow> None
                | Some ch \<Rightarrow> cons_char ch (scanstring es)))
      else if c < 32 then None
      else cons_char c (scanstring cs))"

text \<open>
  The number at the head of the text, as the pattern
  \<open>(-?(?:0|[1-9]\d*))(\.\d+)?([eE][-+]?\d+)?\<close> matches it: the literal and the text
  behind it.
\<close>

definition match_int :: "pystr \<Rightarrow> (pystr \<times> pystr) option" where
  "match_int s =
     (let sign = (if s \<noteq> [] \<and> hd s = 45 then [45] else []);
          r = drop (length sign) s
      in case r of
           [] \<Rightarrow> None
         | d # r1 \<Rightarrow>
             if d = 48 then Some (sign @ [48], r1)
             else if 49 \<le> d \<and> d \<le> 57
             then Some (sign @ d # takeWhile is_digit r1, dropWhile is_digit r1)
             else None)"

definition match_frac :: "pystr \<Rightarrow> pystr \<times> pystr" where
  "match_frac s =
     (case s of
        c # d # r \<Rightarrow>
          if c = 46 \<and> is_digit d
          then (c # d # takeWhile is_digit r, dropWhile is_digit r)
          else ([], s)
      | _ \<Rightarrow> ([], s))"

definition match_exp :: "pystr \<Rightarrow> pystr \<times> pystr" where
  "match_exp s =
     (case s of
        [] \<Rightarrow> ([], s)
      | c # r \<Rightarrow>
          if c = 101 \<or> c = 69 then
            (let sign = (if r \<noteq> [] \<and> (hd r = 45 \<or> hd r = 43) then [hd r] else []);
                 r1 = drop (length sign) r
             in if r1 \<noteq> [] \<and> is_digit (hd r1)
                then (c # sign @ takeWhile is_digit r1, dropWhile is_digit r1)
                else ([], s))
          else ([], s))"

definition match_number :: "pystr \<Rightarrow> (pystr \<times> pystr) option" where
  "match_number s =
     (case match_int s of
        None \<Rightarrow> None
      | Some (i, r) \<Rightarrow>
          (case match_frac r of
             (f, r1) \<Rightarrow> (case match_exp r1 of (e, r2) \<Rightarrow> Some (i @ f @ e, r2))))"

text \<open>
  One value (\<open>scan_once\<close>), the items of an array behind its first bracket
  (\<open>JSONArray\<close>) and the members of an object behind the quote that opens a key
  (\<open>JSONObject\<close>). The first argument bounds the calls still allowed; each call uses
  one, and \<open>json_loads\<close> starts with more than the text has characters.
\<close>

fun scan_once :: "nat \<Rightarrow> pystr \<Rightarrow> (json \<times> pystr) option"
and scan_items :: "nat \<Rightarrow> pystr \<Rightarrow> (json list \<times> pystr) option"
and scan_members :: "nat \<Rightarrow> pystr \<Rightarrow> ((pystr \<times> json) list \<times> pystr) option"
where
  "scan_once 0 s = None"
| "scan_once (Suc n) s =
     (case s of
        [] \<Rightarrow> None
      | c # cs \<Rightarrow>
          if c = 34 then
            (case scanstring cs of None \<Rightarrow> None | Some (t, r) \<Rightarrow> Some (JStr t, r))
          else if c = 123 then
            (case skip_ws cs of
               [] \<Rightarrow> None
             | d # r \<Rightarrow>
                 if d = 125 then Some (JObj [], r)
                 else if d = 34 then
                   (case scan_members n r of
                      None \<Rightarrow> None
                    | Some (ps, r1) \<Rightarrow> Some (JObj ps, r1))
                 else None)
          else if c = 91 then
            (case skip_ws cs of
               [] \<Rightarrow> None
             | d # r \<Rightarrow>
                 if d = 93 then Some (JArr [], r)
                 else
                   (case scan_items n (d # r) of
                      None \<Rightarrow> None
                    | Some (vs, r1) \<Rightarrow> Some (JArr vs, r1)))
          else if take 4 s = py ''null'' then Some (JNull, drop 4 s)
          else if take 4 s = py ''true'' then Some (JBool True, drop 4 s)
          else if take 5 s = py ''false'' then Some (JBool False, drop 5 s)
          else
            (case match_number s of
               Some (l, r) \<Rightarrow> Some (JNum l, r)
             | None \<Rightarrow>
                 if take 3 s = py ''NaN'' then Some (JNum (py ''NaN''), drop 3 s)
                 else if take 8 s = py ''Infinity'' then Some (JNum (py ''Infinity''), drop 8 s)
                 else if take 9 s = py ''-Infinity'' then Some (JNum (py ''-Infinity''), drop 9 s)
                 else None))"
| "scan_items 0 s = None"
| "scan_items (Suc n) s =
     (case scan_once n s of
        None \<Rightarrow> None
      | Some (v, r) \<Rightarrow>
          (case skip_ws r of
             [] \<Rightarrow> None
           | d # r1 \<Rightarrow>
               if d = 93 then Some ([v], r1)
               else if d = 44 then
                 (case scan_items n (skip_ws r1) of
                    None \<Rightarrow> None
                  | Some (vs, r2) \<Rightarrow> Some (v # vs, r2))
               else None))"
| "scan_members 0 s = None"
| "scan_members (Suc n) s =
     (case scanstring s of
        None \<Rightarrow> None
      | Some (k, r) \<Rightarrow>
          (case skip_ws r of
             [] \<Rightarrow> None
           | d # r1 \<Rightarrow>
               if d \<noteq> 58 then None
               else
                 (case scan_once n (skip_ws r1) of
                    None \<Rightarrow> None
                  | Some (v, r2) \<Rightarrow>
                      (case skip_ws r2 of
                         [] \<Rightarrow> None
                       | d2 # r3 \<Rightarrow>
                           if d2 = 125 then Some ([(k, v)], r3)
                           else if d2 = 44 then
                             (case skip_ws r3 of
                                [] \<Rightarrow> None
                              | d3 # r4 \<Rightarrow>
                                  if d3 \<noteq> 34 then None
                                  else
                                    (case scan_members n r4 of
                                       None \<Rightarrow> None
                                     | Some (ps, r5) \<Rightarrow> Some ((k, v) # ps, r5)))
                           else None))))"

definition json_loads :: "pystr \<Rightarrow> json option" where
  "json_loads s =
     (if s \<noteq> [] \<and> hd s = 0xFEFF then None
      else
        (case scan_once (Suc (length s)) (skip_ws s) of
           None \<Rightarrow> None
         | Some (v, r) \<Rightarrow> if skip_ws r = [] then Some v else None))"

section \<open>The audit summary\<close>

text \<open>
  Iterating over a file opened in text mode: \<open>\r\n\<close> and \<open>\r\<close> are read as \<open>\n\<close>, and
  every line but possibly the last ends with \<open>\n\<close>.
\<close>

fun universal_newlines :: "pystr \<Rightarrow> pystr" where
  "universal_newlines [] = []"
| "universal_newlines [c] = (if c = 13 then [10] else [c])"
| "universal_newlines (c # d # cs) =
     (if c = 13 \<and> d = 10 then 10 # universal_newlines cs
      else if c = 13 then 10 # universal_newlines (d # cs)
      else c # universal_newlines (d # cs))"

fun split_lines :: "pystr \<Rightarrow> pystr \<Rightarrow> pystr list" where
  "split_lines acc [] = (if acc = [] then [] else [acc])"
| "split_lines acc (c # cs) =
     (if c = 10 then (acc @ [c]) # split_lines [] cs else split_lines (acc @ [c]) cs)"

definition readlines :: "pystr \<Rightarrow> pystr list" where
  "readlines text = split_lines [] (universal_newlines text)"

text \<open>
  \<open>e[key]\<close> on a value that \<open>json.loads\<close> returned: the last member of that name in an
  object (\<open>KeyError\<close> if there is none); \<open>TypeError\<close> on every other value, which has
  no string subscripts.
\<close>

definition getitem :: "json \<Rightarrow> pystr \<Rightarrow> py_exception + json" where
  "getitem e key =
     (case e of
        JObj ps \<Rightarrow> (case map_of (rev ps) key of None \<Rightarrow> Inl (KeyError key) | Some v \<Rightarrow> Inr v)
      | _ \<Rightarrow> Inl TypeError)"

text \<open>
  \<open>sum(1 for e in entries if test(e))\<close>, where the test may raise: the first exception
  ends the count.
\<close>

fun count_if :: "(json \<Rightarrow> py_exception + bool) \<Rightarrow> json list \<Rightarrow> py_exception + nat" where
  "count_if test [] = Inr 0"
| "count_if test (e # es) =
     (case test e of
        Inl x \<Rightarrow> Inl x
      | Inr b \<Rightarrow>
          (case count_if test es of
             Inl x \<Rightarrow> Inl x
           | Inr n \<Rightarrow> Inr (if b then Suc n else n)))"

text \<open>\<open>xs[i:]\<close>, for any integer \<open>i\<close>.\<close>

definition slice_from :: "'a list \<Rightarrow> int \<Rightarrow> 'a list" where
  "slice_from xs i =
     (if i < 0 then drop (nat (int (length xs) + i)) xs else drop (nat i) xs)"

text \<open>
  The three dictionaries \<open>get_audit_summary\<close> can return: the statistics, the answer
  for a missing file (it has \<open>total_entries\<close> 0), and the answer for any other
  exception.
\<close>

datatype audit_summary =
  Summary nat nat nat nat "json list"
| No_audit_log
| Read_failed py_exception

fun total_entries :: "audit_summary \<Rightarrow> nat option" where
  "total_entries (Summary n succ fail elev recent) = Some n"
| "total_entries No_audit_log = Some 0"
| "total_entries (Read_failed x) = None"

definition result_is_success :: "json \<Rightarrow> py_exception + bool" where
  "result_is_success e =
     (case getitem e (py ''result'') of Inl x \<Rightarrow> Inl x | Inr v \<Rightarrow> Inr (v = JStr (py ''success'')))"

definition result_is_failure :: "json \<Rightarrow> py_exception + bool" where
  "result_is_failure e =
     (case getitem e (py ''result'') of Inl x \<Rightarrow> Inl x | Inr v \<Rightarrow> Inr (v \<noteq> JStr (py ''success'')))"

definition level_is_elevated :: "json \<Rightarrow> py_exception + bool" where
  "level_is_elevated e =
     (case getitem e (py ''permission_level'') of
        Inl x \<Rightarrow> Inl x
      | Inr v \<Rightarrow> Inr (v \<in> set [JStr (py ''elevated''), JStr (py ''administrative'')]))"

text \<open>The lines of the file that \<open>json.loads(line.strip())\<close> accepts, in order.\<close>

definition parsed_entries :: "pystr \<Rightarrow> json list" where
  "parsed_entries text = List.map_filter (\<lambda>line. json_loads (py_strip line)) (readlines text)"

definition summarize :: "json list \<Rightarrow> int \<Rightarrow> audit_summary" where
  "summarize entries limit =
     (let recent_entries =
            (if int (length entries) > limit then slice_from entries (- limit) else entries)
      in case count_if result_is_success recent_entries of
           Inl x \<Rightarrow> Read_failed x
         | Inr succ \<Rightarrow>
             (case count_if result_is_failure recent_entries of
                Inl x \<Rightarrow> Read_failed x
              | Inr fail \<Rightarrow>
                  (case count_if level_is_elevated recent_entries of
                     Inl x \<Rightarrow> Read_failed x
                   | Inr elev \<Rightarrow>
                       Summary (length recent_entries) succ fail elev
                         (slice_from recent_entries (- 10)))))"

definition get_audit_summary :: "state \<Rightarrow> int \<Rightarrow> audit_summary" where
  "get_audit_summary s limit =
     (case log_file s of
        None \<Rightarrow> No_audit_log
      | Some text \<Rightarrow> summarize (parsed_entries text) limit)"

section \<open>Notions for the round trip of a log line\<close>

text \<open>
  What \<open>scanstring\<close> makes of the escapes that \<open>encode_basestring_ascii\<close> writes for a
  string: the string itself, except that a high surrogate immediately followed by a
  low surrogate (two code points of the \<open>str\<close>) comes back as the one code point of
  the pair. \<open>has_surrogate_pair\<close> says that a string has such two neighbours.
\<close>

fun join_surrogates :: "pystr \<Rightarrow> pystr" where
  "join_surrogates (h # l # cs) =
     (if 0xD800 \<le> h \<and> h \<le> 0xDBFF \<and> 0xDC00 \<le> l \<and> l \<le> 0xDFFF
      then (0x10000 + ((h - 0xD800) * 0x400 + (l - 0xDC00))) # join_surrogates cs
      else h # join_surrogates (l # cs))"
| "join_surrogates cs = cs"

definition has_surrogate_pair :: "pystr \<Rightarrow> bool" where
  "has_surrogate_pair s =
     list_ex (\<lambda>p. 0xD800 \<le> fst p \<and> fst p \<le> 0xDBFF \<and> 0xDC00 \<le> snd p \<and> snd p \<le> 0xDFFF)
       (zip s (tl s))"

text \<open>
  \<open>reads_back n v v'\<close>: the text \<open>json.dumps\<close> writes for \<open>v\<close>, standing before a comma
  or a closing brace, is read by \<open>scan_once\<close> as \<open>v'\<close> up to that character, whenever
  at least \<open>n\<close> calls are allowed; and the text does not start with white space.
\<close>

definition reads_back :: "nat \<Rightarrow> json \<Rightarrow> json \<Rightarrow> bool" where
  "reads_back n v v' =
     ((\<forall>m rest. n \<le> m \<longrightarrow> scan_once m (json_dumps v @ 44 # rest) = Some (v', 44 # rest))
      \<and> (\<forall>m rest. n \<le> m \<longrightarrow> scan_once m (json_dumps v @ 125 # rest) = Some (v', 125 # rest))
      \<and> json_dumps v \<noteq> [] \<and> \<not> is_ws (hd (json_dumps v)))"

text \<open>Every \<open>str\<close> of an entry is a sequence of code points.\<close>

definition is_entry :: "AuditEntry \<Rightarrow> bool" where
  "is_entry e =
     (is_str (operation e) \<and> is_str (entry_permission_level e) \<and> is_str (result e)
      \<and> is_str (user e) \<and> is_str (detail_description (details e))
      \<and> is_str (message (details e))
      \<and> (case detail_working_directory (details e) of None \<Rightarrow> True | Some d \<Rightarrow> is_str d))"

section \<open>Concrete values for the examples\<close>

text \<open>
  An unprivileged manager of user \<open>alice\<close> as it is made: its audit file is there and
  empty, its standard input holds the given lines and then ends. The operation of the
  specification's scenario (\<open>chmod 755 /tmp/x\<close>, ELEVATED, approval required); a BASIC
  operation; and surroundings with a given process outcome and write outcome, in which
  \<open>kill()\<close> works and both logging handlers write every record.
\<close>

definition example_state :: "pystr list \<Rightarrow> state" where
  "example_state answers =
     \<lparr>current_user = py ''alice'', is_privileged = False, session_operations = [],
      logger = [], log_file = Some [],
      stdin = (\<lambda>n. if n < length answers then Some (answers ! n) else None),
      stdin_pos = 0, stdout = [], popen_calls = [], kill_calls = 0, survivors = []\<rparr>"

definition chmod_operation :: PrivilegedOperation where
  "chmod_operation =
     \<lparr>command = [py ''chmod'', py ''755'', py ''/tmp/x''],
      description = py ''Change permissions/ownership for /tmp/x'',
      permission_level = ELEVATED, requires_user_approval = True, timeout = 300,
      working_directory = None, environment = None\<rparr>"

definition echo_operation :: PrivilegedOperation where
  "echo_operation =
     \<lparr>command = [py ''echo'', py ''hello''], description = py ''Say hello'',
      permission_level = BASIC, requires_user_approval = True, timeout = 300,
      working_directory = None, environment = None\<rparr>"

definition example_surroundings :: "proc_outcome \<Rightarrow> write_outcome \<Rightarrow> surroundings" where
  "example_surroundings p wr =
     \<lparr>clock_start = \<lparr>year = 2024, month = 5, day = 17, hour = 9, minute = 30, second = 0,
                      microsecond = 250000\<rparr>,
      elapsed = \<lparr>negative = False, whole = 0, fraction = [0, 1, 2], exponent = None\<rparr>,
      os_environ = [(py ''PATH'', py ''/usr/bin'')],
      process = p, kill = Kill_ok, log_write = wr,
      handling = (\<lambda>n. \<lparr>asctime = py ''2024-05-17 09:30:00,250'',
                            file_handler_writes = True, stream_handler_writes = True\<rparr>)\<rparr>"

text \<open>
  The entry the example manager makes for \<open>echo hello\<close> when the process exits with 0
  and prints \<open>hello\<close>; and the entry it makes for a command with an argument of two
  code points, the high surrogate U+D83D followed by the low surrogate U+DE00, which
  \<open>Popen\<close> refuses with an exception.
\<close>

definition example_entry :: AuditEntry where
  "example_entry =
     audit_entry (py ''alice'') echo_operation SUCCESS (py ''hello'')
       (clock_start (example_surroundings (Process_exits 0 (py ''hello'') []) Write_ok))
       (example_surroundings (Process_exits 0 (py ''hello'') []) Write_ok)"

definition surrogate_operation :: PrivilegedOperation where
  "surrogate_operation = echo_operation\<lparr>command := [py ''echo'', [0xD83D, 0xDE00]]\<rparr>"

definition surrogate_entry :: AuditEntry where
  "surrogate_entry =
     audit_entry (py ''alice'') surrogate_operation OPERATION_FAILED
       (py ''Unexpected error: surrogates not allowed'')
       (clock_start (example_surroundings (Other_exception (py ''surrogates not allowed'')) Write_ok))
       (example_surroundings (Other_exception (py ''surrogates not allowed'')) Write_ok)"

section \<open>Properties of the classifier\<close>

text \<open>
  Claim C6. Matching of the first token is case-insensitive (the token is lowercased
  before the lookup), so "the first token is in neither set" is read on the lowercased
  token; the empty command has no first token. Under that condition the classifier
  returns ELEVATED exactly when some element of the command (the first one included)
  starts with one of \<open>/etc\<close>, \<open>/usr/local\<close>, \<open>/opt\<close>, \<open>/var\<close>, \<open>/root\<close>, and BASIC
  otherwise.
\<close>

theorem analyze_command_permissions_paths:
  assumes "cmd = [] \<or> py_lower (hd cmd) \<notin> set admin_commands \<union> set elevated_commands"
  shows "analyze_command_permissions cmd =
           (if \<exists>arg \<in> set cmd. \<exists>path \<in> set privileged_paths. startswith arg path
            then ELEVATED else BASIC)"
  using assms
  by (cases cmd)
     (auto simp: analyze_command_permissions_def touches_privileged_path_def list_ex_iff)

theorem analyze_command_permissions_paths_witness:
  "py_lower (hd [py ''Cat'', py ''/etc/passwd'']) \<notin> set admin_commands \<union> set elevated_commands
   \<and> analyze_command_permissions [py ''Cat'', py ''/etc/passwd''] = ELEVATED
   \<and> analyze_command_permissions [py ''ls'', py ''-l'', py ''/home/etc''] = BASIC"
proof -
  have h1: "py_lower (hd [py ''Cat'', py ''/etc/passwd'']) \<notin> set admin_commands \<union> set elevated_commands"
    by (simp add: py_def py_lower_def lower_cp_def admin_commands_def elevated_commands_def)
  have h2: "py_lower (hd [py ''ls'', py ''-l'', py ''/home/etc'']) \<notin> set admin_commands \<union> set elevated_commands"
    by (simp add: py_def py_lower_def lower_cp_def admin_commands_def elevated_commands_def)
  have "analyze_command_permissions [py ''Cat'', py ''/etc/passwd''] = ELEVATED"
    using analyze_command_permissions_paths [of "[py ''Cat'', py ''/etc/passwd'']"] h1
    by (simp add: py_def privileged_paths_def startswith_def)
  moreover have "analyze_command_permissions [py ''ls'', py ''-l'', py ''/home/etc''] = BASIC"
    using analyze_command_permissions_paths [of "[py ''ls'', py ''-l'', py ''/home/etc'']"] h2
    by (simp add: py_def privileged_paths_def startswith_def)
  ultimately show ?thesis using h1 by blast
qed

section \<open>The consent gate\<close>

text \<open>
  The gate reads standard input and writes standard output and touches nothing else,
  so its answer does not depend on what the logger holds.
\<close>

lemma consent_logger: "consent (s\<lparr>logger := l\<rparr>) op = consent s op"
  by (simp add: consent_def request_permission_def split: option.splits)

lemma check_permission_required_logger:
  "check_permission_required (s\<lparr>logger := l\<rparr>) op = check_permission_required s op"
  by (simp add: check_permission_required_def)

lemma consent_request:
  assumes "consent s op = Some r"
  shows "\<exists>pos out. request_permission s op = Some (s\<lparr>stdin_pos := pos, stdout := out\<rparr>, r)"
proof (cases "requires_user_approval op")
  case False
  with assms
  have "request_permission s op = Some (s\<lparr>stdin_pos := stdin_pos s, stdout := stdout s\<rparr>, r)"
    by (simp add: consent_def request_permission_def)
  then show ?thesis by blast
next
  case True
  with assms show ?thesis
    by (auto simp: consent_def request_permission_def split: option.splits)
qed

lemma consent_None: "consent s op = None \<Longrightarrow> request_permission s op = None"
  by (simp add: consent_def)

lemma consent_asks:
  "requires_user_approval op \<Longrightarrow>
     consent s op
     = map_option fst (ask_to_proceed (stdin s) (stdin_pos s) (stdout s @ announcement op))"
  by (simp add: consent_def request_permission_def split: option.splits)

lemma consent_not_asked: "\<not> requires_user_approval op \<Longrightarrow> consent s op = Some (Inr True)"
  by (simp add: consent_def request_permission_def)

text \<open>One step of the loop on each kind of line.\<close>

lemma ask_to_proceed_eof:
  "inp pos = None \<Longrightarrow>
     ask_to_proceed inp pos out
     = Some (Inl EOFError, pos, out @ [py ''Do you want to proceed? (y/N): ''])"
  by (subst ask_to_proceed.simps) (simp add: Let_def)

lemma ask_to_proceed_yes:
  "inp pos = Some l \<Longrightarrow> py_lower (py_strip l) \<in> set answers_yes \<Longrightarrow>
     ask_to_proceed inp pos out
     = Some (Inr True, Suc pos, out @ [py ''Do you want to proceed? (y/N): ''])"
  by (subst ask_to_proceed.simps) (simp add: Let_def)

lemma ask_to_proceed_no:
  "inp pos = Some l \<Longrightarrow> py_lower (py_strip l) \<notin> set answers_yes \<Longrightarrow>
   py_lower (py_strip l) \<in> set answers_no \<Longrightarrow>
     ask_to_proceed inp pos out
     = Some (Inr False, Suc pos, out @ [py ''Do you want to proceed? (y/N): ''])"
  by (subst ask_to_proceed.simps) (simp add: Let_def)

lemma ask_to_proceed_again:
  "inp pos = Some l \<Longrightarrow> py_lower (py_strip l) \<notin> set (answers_yes @ answers_no) \<Longrightarrow>
     ask_to_proceed inp pos out
     = ask_to_proceed inp (Suc pos)
         (out @ [py ''Do you want to proceed? (y/N): '', py ''Please enter 'y' or 'n'' @ [39]])"
  by (subst ask_to_proceed.simps) (simp add: Let_def)

text \<open>Lines that are no answer are skipped, however many there are.\<close>

lemma ask_to_proceed_skip:
  assumes "\<forall>i<k. \<exists>l. inp (pos + i) = Some l
             \<and> py_lower (py_strip l) \<notin> set (answers_yes @ answers_no)"
  shows "\<exists>out'. ask_to_proceed inp pos out = ask_to_proceed inp (pos + k) out'"
  using assms
proof (induction k arbitrary: pos out)
  case 0
  then show ?case by auto
next
  case (Suc k)
  from Suc.prems obtain l where l: "inp pos = Some l"
      "py_lower (py_strip l) \<notin> set (answers_yes @ answers_no)"
    by force
  have "\<forall>i<k. \<exists>l. inp (Suc pos + i) = Some l
             \<and> py_lower (py_strip l) \<notin> set (answers_yes @ answers_no)"
    using Suc.prems by (metis Suc_less_eq add_Suc_shift)
  from Suc.IH[OF this] obtain out' where
    "ask_to_proceed inp (Suc pos)
       (out @ [py ''Do you want to proceed? (y/N): '', py ''Please enter 'y' or 'n'' @ [39]])
     = ask_to_proceed inp (Suc pos + k) out'" by blast
  then show ?case using ask_to_proceed_again[of inp pos l, OF l] by auto
qed

text \<open>
  The loop returns only if the input, from where it stands, somewhere ends or holds an
  answer; on input that never does, the gate does not return.
\<close>

lemma ask_to_proceed_stops:
  assumes "ask_to_proceed inp pos out = Some y"
  shows "\<exists>i. case inp (pos + i) of None \<Rightarrow> True
               | Some l \<Rightarrow> py_lower (py_strip l) \<in> set (answers_yes @ answers_no)"
proof (rule ask_to_proceed.raw_induct
    [where P = "\<lambda>inp pos out y. \<exists>i. case inp (pos + i) of None \<Rightarrow> True
               | Some l \<Rightarrow> py_lower (py_strip l) \<in> set (answers_yes @ answers_no)",
      OF _ assms], goal_cases)
  case (1 ask inp pos out y)
  show ?case
  proof (cases "inp pos")
    case None
    then have "case inp (pos + 0) of None \<Rightarrow> True
               | Some l \<Rightarrow> py_lower (py_strip l) \<in> set (answers_yes @ answers_no)" by simp
    then show ?thesis by blast
  next
    case (Some l)
    show ?thesis
    proof (cases "py_lower (py_strip l) \<in> set (answers_yes @ answers_no)")
      case True
      with Some have "case inp (pos + 0) of None \<Rightarrow> True
               | Some l \<Rightarrow> py_lower (py_strip l) \<in> set (answers_yes @ answers_no)" by simp
      then show ?thesis by blast
    next
      case False
      with 1(2) Some have "\<exists>out'. ask inp (Suc pos) out' = Some y"
        by (auto simp: Let_def split: if_splits)
      then obtain out' where "ask inp (Suc pos) out' = Some y" by blast
      from 1(1)[OF this] obtain i where "case inp (Suc pos + i) of None \<Rightarrow> True
               | Some l \<Rightarrow> py_lower (py_strip l) \<in> set (answers_yes @ answers_no)" by blast
      then have "case inp (pos + Suc i) of None \<Rightarrow> True
               | Some l \<Rightarrow> py_lower (py_strip l) \<in> set (answers_yes @ answers_no)" by simp
      then show ?thesis by blast
    qed
  qed
qed

lemma ask_to_proceed_forever:
  assumes "\<forall>i. \<exists>l. inp (pos + i) = Some l
             \<and> py_lower (py_strip l) \<notin> set (answers_yes @ answers_no)"
  shows "ask_to_proceed inp pos out = None"
proof (cases "ask_to_proceed inp pos out")
  case None then show ?thesis .
next
  case (Some y)
  from ask_to_proceed_stops[OF this] obtain i where
    "case inp (pos + i) of None \<Rightarrow> True
               | Some l \<Rightarrow> py_lower (py_strip l) \<in> set (answers_yes @ answers_no)" by blast
  with spec[OF assms, of i] show ?thesis by (auto split: option.splits)
qed

text \<open>The gate on the example manager: a "no", a "yes", an end of file, and chatter without end.\<close>

lemma consent_example_no:
  "consent (example_state [py ''maybe'', py '' No '']) chmod_operation = Some (Inr False)"
proof -
  let ?s = "example_state [py ''maybe'', py '' No '']"
  have 0: "stdin ?s 0 = Some (py ''maybe'')" and 1: "stdin ?s (Suc 0) = Some (py '' No '')"
    by (simp_all add: example_state_def)
  have a: "py_lower (py_strip (py ''maybe'')) \<notin> set (answers_yes @ answers_no)"
    by (simp add: py_def py_lower_def py_strip_def py_isspace_def lower_cp_def
        answers_yes_def answers_no_def)
  have b: "py_lower (py_strip (py '' No '')) \<notin> set answers_yes"
    and c: "py_lower (py_strip (py '' No '')) \<in> set answers_no"
    by (simp_all add: py_def py_lower_def py_strip_def py_isspace_def lower_cp_def
        answers_yes_def answers_no_def)
  have "map_option fst (ask_to_proceed (stdin ?s) 0 out) = Some (Inr False)" for out
    by (simp add: ask_to_proceed_again[of "stdin ?s" 0, OF 0 a]
        ask_to_proceed_no[of "stdin ?s" "Suc 0", OF 1 b c])
  moreover have "stdin_pos ?s = 0" "requires_user_approval chmod_operation"
    by (simp_all add: example_state_def chmod_operation_def)
  ultimately show ?thesis by (simp add: consent_asks)
qed

lemma consent_example_yes:
  "consent (example_state [py ''Y'']) chmod_operation = Some (Inr True)"
proof -
  let ?s = "example_state [py ''Y'']"
  have 0: "stdin ?s 0 = Some (py ''Y'')"
    by (simp add: example_state_def)
  have a: "py_lower (py_strip (py ''Y'')) \<in> set answers_yes"
    by (simp add: py_def py_lower_def py_strip_def py_isspace_def lower_cp_def answers_yes_def)
  have "map_option fst (ask_to_proceed (stdin ?s) 0 out) = Some (Inr True)" for out
    by (simp add: ask_to_proceed_yes[of "stdin ?s" 0, OF 0 a])
  moreover have "stdin_pos ?s = 0" "requires_user_approval chmod_operation"
    by (simp_all add: example_state_def chmod_operation_def)
  ultimately show ?thesis by (simp add: consent_asks)
qed

lemma consent_example_eof:
  "consent (example_state []) chmod_operation = Some (Inl EOFError)"
proof -
  let ?s = "example_state []"
  have 0: "stdin ?s 0 = None"
    by (simp add: example_state_def)
  have "map_option fst (ask_to_proceed (stdin ?s) 0 out) = Some (Inl EOFError)" for out
    by (simp add: ask_to_proceed_eof[of "stdin ?s" 0, OF 0])
  moreover have "stdin_pos ?s = 0" "requires_user_approval chmod_operation"
    by (simp_all add: example_state_def chmod_operation_def)
  ultimately show ?thesis by (simp add: consent_asks)
qed

lemma consent_example_forever:
  "consent ((example_state [])\<lparr>stdin := (\<lambda>n. Some (py ''what?''))\<rparr>) chmod_operation = None"
proof -
  have "py_lower (py_strip (py ''what?'')) \<notin> set (answers_yes @ answers_no)"
    by (simp add: py_def py_lower_def py_strip_def py_isspace_def lower_cp_def
        answers_yes_def answers_no_def)
  then have "ask_to_proceed (\<lambda>n. Some (py ''what?'')) 0 out = None" for out
    by (intro ask_to_proceed_forever) simp
  moreover have "requires_user_approval chmod_operation"
    by (simp add: chmod_operation_def)
  ultimately show ?thesis by (simp add: consent_asks example_state_def)
qed

text \<open>
  What standard output holds when the gate is asked changes what it holds afterwards,
  not the answer; nor do the logger's records or the audit file. So the two records
  logged at the start of a call leave the answer of the gate as it is.
\<close>

lemma ask_to_proceed_output:
  assumes "ask_to_proceed inp pos out = Some y"
  shows "\<exists>out1. ask_to_proceed inp pos out' = Some (fst y, fst (snd y), out1)"
proof -
  have "\<forall>out'. \<exists>out1. ask_to_proceed inp pos out' = Some (fst y, fst (snd y), out1)"
  proof (rule ask_to_proceed.raw_induct
      [where P = "\<lambda>inp pos out y.
                    \<forall>out'. \<exists>out1. ask_to_proceed inp pos out' = Some (fst y, fst (snd y), out1)",
        OF _ assms], goal_cases)
    case (1 ask inp pos out y)
    show ?case
    proof (cases "inp pos")
      case None
      with 1(2) have "fst y = Inl EOFError" "fst (snd y) = pos" by (auto simp: Let_def)
      with None show ?thesis by (simp add: ask_to_proceed_eof)
    next
      case (Some l)
      show ?thesis
      proof (cases "py_lower (py_strip l) \<in> set answers_yes")
        case True
        with 1(2) Some have "fst y = Inr True" "fst (snd y) = Suc pos" by (auto simp: Let_def)
        with Some True show ?thesis by (simp add: ask_to_proceed_yes)
      next
        case ny: False
        show ?thesis
        proof (cases "py_lower (py_strip l) \<in> set answers_no")
          case True
          with 1(2) Some ny have "fst y = Inr False" "fst (snd y) = Suc pos"
            by (auto simp: Let_def)
          with Some True ny show ?thesis by (simp add: ask_to_proceed_no)
        next
          case False
          with ny have n: "py_lower (py_strip l) \<notin> set (answers_yes @ answers_no)" by simp
          from 1(2) Some ny False have "\<exists>out2. ask inp (Suc pos) out2 = Some y"
            by (auto simp: Let_def)
          then obtain out2 where "ask inp (Suc pos) out2 = Some y" by blast
          from 1(1)[OF this] show ?thesis
            by (simp add: ask_to_proceed_again[of inp pos l, OF Some n])
        qed
      qed
    qed
  qed
  then show ?thesis by blast
qed

lemma ask_to_proceed_answer:
  "map_option fst (ask_to_proceed inp pos out) = map_option fst (ask_to_proceed inp pos out')"
proof (cases "ask_to_proceed inp pos out")
  case None
  show ?thesis
  proof (cases "ask_to_proceed inp pos out'")
    case (Some y)
    from ask_to_proceed_output[OF this, of out] None show ?thesis by simp
  qed (simp add: None)
next
  case (Some y)
  from ask_to_proceed_output[OF this, of out'] Some show ?thesis by auto
qed

lemma consent_stdout: "consent (s\<lparr>stdout := out\<rparr>) op = consent s op"
proof (cases "requires_user_approval op")
  case True
  then show ?thesis
    using ask_to_proceed_answer[of "stdin s" "stdin_pos s" "out @ announcement op"
            "stdout s @ announcement op"]
    by (simp add: consent_asks)
qed (simp add: consent_not_asked)

lemma consent_log_file: "consent (s\<lparr>log_file := f\<rparr>) op = consent s op"
  by (simp add: consent_def request_permission_def split: option.splits)

lemma consent_logger_log: "consent (logger_log s lvl msg h) op = consent s op"
  by (simp add: logger_log_def consent_stdout consent_log_file consent_logger)

lemma consent_log_attempt: "consent (log_attempt s op' w) op = consent s op"
  by (simp add: log_attempt_def consent_logger_log)

section \<open>The orchestrator, path by path\<close>

text \<open>What a record given to the logger changes, and what the two first records do.\<close>

lemma logger_log_frame:
  shows "session_operations (logger_log s lvl msg h) = session_operations s"
    and "current_user (logger_log s lvl msg h) = current_user s"
    and "is_privileged (logger_log s lvl msg h) = is_privileged s"
    and "stdin (logger_log s lvl msg h) = stdin s"
    and "stdin_pos (logger_log s lvl msg h) = stdin_pos s"
    and "popen_calls (logger_log s lvl msg h) = popen_calls s"
    and "kill_calls (logger_log s lvl msg h) = kill_calls s"
    and "survivors (logger_log s lvl msg h) = survivors s"
    and "logger (logger_log s lvl msg h) = logger s @ [(lvl, msg)]"
  by (simp_all add: logger_log_def)

lemma logger_log_file:
  "log_file (logger_log s lvl msg h)
   = map_option (\<lambda>text. text @ file_handler_text h lvl msg) (log_file s)"
  by (simp add: logger_log_def)

lemma log_attempt_frame:
  shows "session_operations (log_attempt s op w) = session_operations s"
    and "current_user (log_attempt s op w) = current_user s"
    and "is_privileged (log_attempt s op w) = is_privileged s"
    and "stdin (log_attempt s op w) = stdin s"
    and "stdin_pos (log_attempt s op w) = stdin_pos s"
    and "popen_calls (log_attempt s op w) = popen_calls s"
    and "kill_calls (log_attempt s op w) = kill_calls s"
    and "survivors (log_attempt s op w) = survivors s"
    and "logger (log_attempt s op w)
         = logger s @ [(INFO, py ''Attempting privileged operation: '' @ description op),
                       (INFO, py ''Command: '' @ join (py '' '') (command op))]"
  by (simp_all add: log_attempt_def logger_log_frame)

lemma check_permission_required_log_attempt:
  "check_permission_required (log_attempt s op' w) op = check_permission_required s op"
  by (simp add: check_permission_required_def log_attempt_frame)

lemma log_attempt_file:
  "log_file (log_attempt s op w)
   = map_option
       (\<lambda>text. text
          @ file_handler_text (handling w 0) INFO
              (py ''Attempting privileged operation: '' @ description op)
          @ file_handler_text (handling w 1) INFO
              (py ''Command: '' @ join (py '' '') (command op)))
       (log_file s)"
  by (cases "log_file s") (simp_all add: log_attempt_def logger_log_file)

text \<open>
  What running the command and logging the outcome does to the state, and which result
  and message each outcome of the process gets.
\<close>

lemma run_process_frame:
  assumes "run_process s cmd op env w = (s1, res, msg)"
  shows "session_operations s1 = session_operations s" and "log_file s1 = log_file s"
    and "current_user s1 = current_user s" and "is_privileged s1 = is_privileged s"
    and "stdin s1 = stdin s" and "stdin_pos s1 = stdin_pos s" and "stdout s1 = stdout s"
    and "logger s1 = logger s"
    and "popen_calls s1 = popen_calls s @ [(cmd, working_directory op, env)]"
    and "kill_calls s1 = (if process w = Timeout_expired then Suc (kill_calls s) else kill_calls s)"
    and "survivors s1 = (if process w = Timeout_expired \<and> kill w = Kill_raises
                         then survivors s @ [cmd] else survivors s)"
  using assms
  by (cases "process w"; cases "kill w"; auto simp: run_process_def Let_def split: if_splits)+

lemma run_process_result:
  assumes "run_process s cmd op env w = (s1, res, msg)"
  shows "(res, msg) =
           (case process w of
              Process_exits rc out err \<Rightarrow>
                if rc = 0
                then (SUCCESS, if out \<noteq> [] then out else py ''Operation completed successfully'')
                else (OPERATION_FAILED,
                      py ''Command failed with return code '' @ str_int rc @ py '': '' @ err)
            | Timeout_expired \<Rightarrow>
                (OPERATION_FAILED,
                 py ''Operation timed out after '' @ str_int (timeout op) @ py '' seconds'')
            | Permission_error \<Rightarrow>
                (PERMISSION_DENIED, py ''Permission denied - unable to execute command'')
            | Other_exception e \<Rightarrow> (OPERATION_FAILED, py ''Unexpected error: '' @ e))"
  using assms
  by (cases "process w"; auto simp: run_process_def Let_def split: if_splits)

lemma log_operation_effects:
  shows "session_operations (log_operation s op res msg st w)
           = session_operations s @ [audit_entry (current_user s) op res msg st w]"
    and "log_file (log_operation s op res msg st w) =
           (case log_write w of
              Write_ok \<Rightarrow>
                Some ((case log_file s of None \<Rightarrow> [] | Some text \<Rightarrow> text)
                      @ json_dumps (log_entry (audit_entry (current_user s) op res msg st w))
                      @ [10])
            | Write_fails e \<Rightarrow>
                map_option
                  (\<lambda>text. text @ file_handler_text (handling w 2) ERROR
                                    (py ''Failed to write audit log: '' @ e))
                  (log_file s))"
    and "popen_calls (log_operation s op res msg st w) = popen_calls s"
    and "kill_calls (log_operation s op res msg st w) = kill_calls s"
    and "survivors (log_operation s op res msg st w) = survivors s"
    and "current_user (log_operation s op res msg st w) = current_user s"
    and "is_privileged (log_operation s op res msg st w) = is_privileged s"
    and "stdin (log_operation s op res msg st w) = stdin s"
    and "stdin_pos (log_operation s op res msg st w) = stdin_pos s"
  by (cases "log_write w"; simp add: log_operation_def Let_def logger_log_def)+

lemma execute_and_log_run:
  assumes "execute_and_log s op ne st w = (s', res, msg)"
  shows "\<exists>env s1.
           run_process s (if ne \<and> \<not> is_privileged s then py ''sudo'' # command op else command op)
             op env w = (s1, res, msg)
           \<and> s' = log_operation s1 op res msg st w"
proof -
  let ?env = "case environment op of
                None \<Rightarrow> os_environ w
              | Some overlay \<Rightarrow> dict_update (os_environ w) overlay"
  let ?cmd = "if ne \<and> \<not> is_privileged s then py ''sudo'' # command op else command op"
  obtain s1 res1 msg1 where r: "run_process s ?cmd op ?env w = (s1, res1, msg1)"
    by (cases "run_process s ?cmd op ?env w") auto
  with assms have "s' = log_operation s1 op res msg st w \<and> res1 = res \<and> msg1 = msg"
    by (auto simp: execute_and_log_def Let_def)
  with r show ?thesis by blast
qed

lemma execute_and_log_effects:
  assumes "execute_and_log s op ne st w = (s', res, msg)"
  shows "session_operations s' = session_operations s @ [audit_entry (current_user s) op res msg st w]"
    and "log_file s' =
           (case log_write w of
              Write_ok \<Rightarrow>
                Some ((case log_file s of None \<Rightarrow> [] | Some text \<Rightarrow> text)
                      @ json_dumps (log_entry (audit_entry (current_user s) op res msg st w))
                      @ [10])
            | Write_fails e \<Rightarrow>
                map_option
                  (\<lambda>text. text @ file_handler_text (handling w 2) ERROR
                                    (py ''Failed to write audit log: '' @ e))
                  (log_file s))"
    and "current_user s' = current_user s"
    and "stdin s' = stdin s" and "stdin_pos s' = stdin_pos s"
    and "is_privileged s' = is_privileged s"
    and "length (popen_calls s') = Suc (length (popen_calls s))"
    and "kill_calls s' = (if process w = Timeout_expired then Suc (kill_calls s) else kill_calls s)"
    and "survivors s' =
           (if process w = Timeout_expired \<and> kill w = Kill_raises
            then survivors s
                 @ [if ne \<and> \<not> is_privileged s then py ''sudo'' # command op else command op]
            else survivors s)"
proof -
  from execute_and_log_run[OF assms] obtain env s1 where
    r: "run_process s (if ne \<and> \<not> is_privileged s then py ''sudo'' # command op else command op)
          op env w = (s1, res, msg)"
    and s': "s' = log_operation s1 op res msg st w"
    by blast
  note f = run_process_frame[OF r]
  show "session_operations s' = session_operations s @ [audit_entry (current_user s) op res msg st w]"
    by (simp add: s' log_operation_effects f)
  show "log_file s' =
           (case log_write w of
              Write_ok \<Rightarrow>
                Some ((case log_file s of None \<Rightarrow> [] | Some text \<Rightarrow> text)
                      @ json_dumps (log_entry (audit_entry (current_user s) op res msg st w))
                      @ [10])
            | Write_fails e \<Rightarrow>
                map_option
                  (\<lambda>text. text @ file_handler_text (handling w 2) ERROR
                                    (py ''Failed to write audit log: '' @ e))
                  (log_file s))"
    by (simp add: s' log_operation_effects f cong: write_outcome.case_cong)
  show "current_user s' = current_user s" "stdin s' = stdin s" "stdin_pos s' = stdin_pos s"
    "is_privileged s' = is_privileged s"
    by (simp_all add: s' log_operation_effects f)
  show "length (popen_calls s') = Suc (length (popen_calls s))"
    by (simp add: s' log_operation_effects f)
  show "kill_calls s' = (if process w = Timeout_expired then Suc (kill_calls s) else kill_calls s)"
    by (simp add: s' log_operation_effects f)
  show "survivors s' =
           (if process w = Timeout_expired \<and> kill w = Kill_raises
            then survivors s
                 @ [if ne \<and> \<not> is_privileged s then py ''sudo'' # command op else command op]
            else survivors s)"
    by (simp add: s' log_operation_effects f)
qed

lemma execute_and_log_result:
  assumes "execute_and_log s op ne st w = (s', res, msg)"
  shows "(res, msg) =
           (case process w of
              Process_exits rc out err \<Rightarrow>
                if rc = 0
                then (SUCCESS, if out \<noteq> [] then out else py ''Operation completed successfully'')
                else (OPERATION_FAILED,
                      py ''Command failed with return code '' @ str_int rc @ py '': '' @ err)
            | Timeout_expired \<Rightarrow>
                (OPERATION_FAILED,
                 py ''Operation timed out after '' @ str_int (timeout op) @ py '' seconds'')
            | Permission_error \<Rightarrow>
                (PERMISSION_DENIED, py ''Permission denied - unable to execute command'')
            | Other_exception e \<Rightarrow> (OPERATION_FAILED, py ''Unexpected error: '' @ e))"
proof -
  from execute_and_log_run[OF assms] obtain env s1 where
    "run_process s (if ne \<and> \<not> is_privileged s then py ''sudo'' # command op else command op)
       op env w = (s1, res, msg)" by blast
  then show ?thesis by (rule run_process_result)
qed

text \<open>
  The five ways through \<open>execute_with_escalation\<close>: the gate is not consulted, it
  grants, it declines, it raises, it never answers.
\<close>

lemma execute_gate_skipped:
  assumes "\<not> check_permission_required s op"
  shows "execute_with_escalation s op w =
           (case execute_and_log (log_attempt s op w) op False (clock_start w) w of
              (s3, r) \<Rightarrow> Some (s3, Inr r))"
  using assms
  by (simp add: execute_with_escalation_def Let_def check_permission_required_log_attempt
      split: prod.splits)

lemma execute_gate_granted:
  assumes "check_permission_required s op" and "consent s op = Some (Inr True)"
  shows "\<exists>pos out.
           execute_with_escalation s op w =
             (case execute_and_log ((log_attempt s op w)\<lparr>stdin_pos := pos, stdout := out\<rparr>)
                     op True (clock_start w) w of
                (s3, r) \<Rightarrow> Some (s3, Inr r))"
proof -
  let ?s1 = "log_attempt s op w"
  from assms(2) have "consent ?s1 op = Some (Inr True)" by (simp add: consent_log_attempt)
  from consent_request[OF this] obtain pos out where
    "request_permission ?s1 op = Some (?s1\<lparr>stdin_pos := pos, stdout := out\<rparr>, Inr True)"
    by blast
  with assms(1) have "execute_with_escalation s op w =
             (case execute_and_log (?s1\<lparr>stdin_pos := pos, stdout := out\<rparr>)
                     op True (clock_start w) w of
                (s3, r) \<Rightarrow> Some (s3, Inr r))"
    by (simp add: execute_with_escalation_def Let_def check_permission_required_log_attempt
        split: prod.splits)
  then show ?thesis by blast
qed

lemma execute_gate_declined:
  assumes "check_permission_required s op" and "consent s op = Some (Inr False)"
  shows "\<exists>pos out.
           execute_with_escalation s op w =
             Some (log_operation ((log_attempt s op w)\<lparr>stdin_pos := pos, stdout := out\<rparr>)
                     op USER_CANCELLED (py ''User cancelled the operation'') (clock_start w) w,
                   Inr (USER_CANCELLED, py ''User cancelled the operation''))"
proof -
  let ?s1 = "log_attempt s op w"
  from assms(2) have "consent ?s1 op = Some (Inr False)" by (simp add: consent_log_attempt)
  from consent_request[OF this] obtain pos out where
    "request_permission ?s1 op = Some (?s1\<lparr>stdin_pos := pos, stdout := out\<rparr>, Inr False)"
    by blast
  with assms(1) have "execute_with_escalation s op w =
             Some (log_operation (?s1\<lparr>stdin_pos := pos, stdout := out\<rparr>)
                     op USER_CANCELLED (py ''User cancelled the operation'') (clock_start w) w,
                   Inr (USER_CANCELLED, py ''User cancelled the operation''))"
    by (simp add: execute_with_escalation_def Let_def check_permission_required_log_attempt)
  then show ?thesis by blast
qed

lemma execute_gate_raises:
  assumes "check_permission_required s op" and "consent s op = Some (Inl x)"
  shows "\<exists>pos out.
           execute_with_escalation s op w =
             Some ((log_attempt s op w)\<lparr>stdin_pos := pos, stdout := out\<rparr>, Inl x)"
proof -
  let ?s1 = "log_attempt s op w"
  from assms(2) have "consent ?s1 op = Some (Inl x)" by (simp add: consent_log_attempt)
  from consent_request[OF this] obtain pos out where
    "request_permission ?s1 op = Some (?s1\<lparr>stdin_pos := pos, stdout := out\<rparr>, Inl x)"
    by blast
  with assms(1) have "execute_with_escalation s op w =
             Some (?s1\<lparr>stdin_pos := pos, stdout := out\<rparr>, Inl x)"
    by (simp add: execute_with_escalation_def Let_def check_permission_required_log_attempt)
  then show ?thesis by blast
qed

lemma execute_gate_silent:
  assumes "check_permission_required s op" and "consent s op = None"
  shows "execute_with_escalation s op w = None"
proof -
  from assms(2) have "request_permission (log_attempt s op w) op = None"
    by (intro consent_None) (simp add: consent_log_attempt)
  with assms(1) show ?thesis
    by (simp add: execute_with_escalation_def Let_def check_permission_required_log_attempt)
qed

text \<open>
  The summary: a call returns a result exactly when the gate is not consulted or
  answers, and it then leaves exactly one entry behind. The file of the audit log then
  holds what it held, what the \<open>FileHandler\<close> wrote for the two records at the start of
  the call, and either the line of the entry or what the \<open>FileHandler\<close> wrote for the
  error of the failed append.
\<close>

lemma execute_returns:
  assumes "\<not> check_permission_required s op \<or> (\<exists>b. consent s op = Some (Inr b))"
  shows "\<exists>s' res msg.
           execute_with_escalation s op w = Some (s', Inr (res, msg))
           \<and> session_operations s'
               = session_operations s @ [audit_entry (current_user s) op res msg (clock_start w) w]
           \<and> log_file s' =
               (case log_write w of
                  Write_ok \<Rightarrow>
                    Some ((case log_file (log_attempt s op w) of None \<Rightarrow> [] | Some text \<Rightarrow> text)
                          @ json_dumps
                              (log_entry (audit_entry (current_user s) op res msg (clock_start w) w))
                          @ [10])
                | Write_fails e \<Rightarrow>
                    map_option
                      (\<lambda>text. text @ file_handler_text (handling w 2) ERROR
                                        (py ''Failed to write audit log: '' @ e))
                      (log_file (log_attempt s op w)))
           \<and> current_user s' = current_user s
           \<and> (res, msg) =
               (if check_permission_required s op \<and> consent s op = Some (Inr False)
                then (USER_CANCELLED, py ''User cancelled the operation'')
                else
                  (case process w of
                     Process_exits rc out err \<Rightarrow>
                       if rc = 0
                       then (SUCCESS,
                             if out \<noteq> [] then out else py ''Operation completed successfully'')
                       else (OPERATION_FAILED,
                             py ''Command failed with return code '' @ str_int rc @ py '': '' @ err)
                   | Timeout_expired \<Rightarrow>
                       (OPERATION_FAILED,
                        py ''Operation timed out after '' @ str_int (timeout op) @ py '' seconds'')
                   | Permission_error \<Rightarrow>
                       (PERMISSION_DENIED, py ''Permission denied - unable to execute command'')
                   | Other_exception e \<Rightarrow> (OPERATION_FAILED, py ''Unexpected error: '' @ e)))"
proof -
  consider (skipped) "\<not> check_permission_required s op"
    | (granted) "check_permission_required s op" "consent s op = Some (Inr True)"
    | (declined) "check_permission_required s op" "consent s op = Some (Inr False)"
    using assms by (metis (full_types))
  then show ?thesis
  proof cases
    case skipped
    let ?s1 = "log_attempt s op w"
    obtain s3 res msg where e: "execute_and_log ?s1 op False (clock_start w) w = (s3, res, msg)"
      by (cases "execute_and_log ?s1 op False (clock_start w) w") auto
    have "execute_with_escalation s op w = Some (s3, Inr (res, msg))"
      using execute_gate_skipped[OF skipped, of w] e by simp
    with execute_and_log_effects(1-3)[OF e] execute_and_log_result[OF e] skipped
    show ?thesis
      by (intro exI[of _ s3] exI[of _ res] exI[of _ msg])
         (simp add: log_attempt_frame cong: write_outcome.case_cong)
  next
    case granted
    from execute_gate_granted[OF granted, of w] obtain pos out where
      x: "execute_with_escalation s op w =
             (case execute_and_log ((log_attempt s op w)\<lparr>stdin_pos := pos, stdout := out\<rparr>)
                     op True (clock_start w) w of
                (s3, r) \<Rightarrow> Some (s3, Inr r))" by blast
    let ?s2 = "(log_attempt s op w)\<lparr>stdin_pos := pos, stdout := out\<rparr>"
    obtain s3 res msg where e: "execute_and_log ?s2 op True (clock_start w) w = (s3, res, msg)"
      by (cases "execute_and_log ?s2 op True (clock_start w) w") auto
    have "execute_with_escalation s op w = Some (s3, Inr (res, msg))"
      using x e by simp
    with execute_and_log_effects(1-3)[OF e] execute_and_log_result[OF e] granted
    show ?thesis
      by (intro exI[of _ s3] exI[of _ res] exI[of _ msg])
         (simp add: log_attempt_frame cong: write_outcome.case_cong)
  next
    case declined
    from execute_gate_declined[OF declined, of w] obtain pos out where
      x: "execute_with_escalation s op w =
             Some (log_operation ((log_attempt s op w)\<lparr>stdin_pos := pos, stdout := out\<rparr>)
                     op USER_CANCELLED (py ''User cancelled the operation'') (clock_start w) w,
                   Inr (USER_CANCELLED, py ''User cancelled the operation''))" by blast
    show ?thesis using declined
      by (simp add: x log_operation_effects log_attempt_frame cong: write_outcome.case_cong)
  qed
qed

text \<open>
  A call whose gate is passed runs the command: what it returns, whether \<open>kill()\<close> is
  called, and which process it leaves running.
\<close>

lemma execute_runs:
  assumes "\<not> check_permission_required s op \<or> consent s op = Some (Inr True)"
  shows "\<exists>s' res msg.
           execute_with_escalation s op w = Some (s', Inr (res, msg))
           \<and> (res, msg) =
               (case process w of
                  Process_exits rc out err \<Rightarrow>
                    if rc = 0
                    then (SUCCESS, if out \<noteq> [] then out else py ''Operation completed successfully'')
                    else (OPERATION_FAILED,
                          py ''Command failed with return code '' @ str_int rc @ py '': '' @ err)
                | Timeout_expired \<Rightarrow>
                    (OPERATION_FAILED,
                     py ''Operation timed out after '' @ str_int (timeout op) @ py '' seconds'')
                | Permission_error \<Rightarrow>
                    (PERMISSION_DENIED, py ''Permission denied - unable to execute command'')
                | Other_exception e \<Rightarrow> (OPERATION_FAILED, py ''Unexpected error: '' @ e))
           \<and> kill_calls s' = (if process w = Timeout_expired then Suc (kill_calls s) else kill_calls s)
           \<and> survivors s' =
               (if process w = Timeout_expired \<and> kill w = Kill_raises
                then survivors s
                     @ [if check_permission_required s op then py ''sudo'' # command op
                        else command op]
                else survivors s)"
proof -
  consider (skipped) "\<not> check_permission_required s op"
    | (granted) "check_permission_required s op" "consent s op = Some (Inr True)"
    using assms by blast
  then show ?thesis
  proof cases
    case skipped
    let ?s1 = "log_attempt s op w"
    obtain s3 res msg where e: "execute_and_log ?s1 op False (clock_start w) w = (s3, res, msg)"
      by (cases "execute_and_log ?s1 op False (clock_start w) w") auto
    have "execute_with_escalation s op w = Some (s3, Inr (res, msg))"
      using execute_gate_skipped[OF skipped, of w] e by simp
    with execute_and_log_effects(8,9)[OF e] execute_and_log_result[OF e] skipped
    show ?thesis
      by (intro exI[of _ s3] exI[of _ res] exI[of _ msg]) (simp add: log_attempt_frame)
  next
    case granted
    from granted(1) have p: "\<not> is_privileged s"
      by (simp add: check_permission_required_def split: if_splits)
    from execute_gate_granted[OF granted, of w] obtain pos out where
      x: "execute_with_escalation s op w =
             (case execute_and_log ((log_attempt s op w)\<lparr>stdin_pos := pos, stdout := out\<rparr>)
                     op True (clock_start w) w of
                (s3, r) \<Rightarrow> Some (s3, Inr r))" by blast
    let ?s2 = "(log_attempt s op w)\<lparr>stdin_pos := pos, stdout := out\<rparr>"
    obtain s3 res msg where e: "execute_and_log ?s2 op True (clock_start w) w = (s3, res, msg)"
      by (cases "execute_and_log ?s2 op True (clock_start w) w") auto
    have "execute_with_escalation s op w = Some (s3, Inr (res, msg))"
      using x e by simp
    with execute_and_log_effects(8,9)[OF e] execute_and_log_result[OF e] granted(1) p
    show ?thesis
      by (intro exI[of _ s3] exI[of _ res] exI[of _ msg]) (simp add: log_attempt_frame)
  qed
qed

text \<open>The same call in surroundings where the append fails and where it works.\<close>

lemma log_attempt_write: "log_attempt s op (w\<lparr>log_write := x\<rparr>) = log_attempt s op w"
  by (simp add: log_attempt_def)

lemma run_process_write: "run_process s cmd op env (w\<lparr>log_write := x\<rparr>) = run_process s cmd op env w"
  by (cases "process w") (simp_all add: run_process_def Let_def)

lemma log_operation_write_fails:
  "log_operation s op res msg st (w\<lparr>log_write := Write_fails e\<rparr>)
   = logger_log ((log_operation s op res msg st (w\<lparr>log_write := Write_ok\<rparr>))\<lparr>log_file := log_file s\<rparr>)
       ERROR (py ''Failed to write audit log: '' @ e) (handling w 2)"
  by (simp add: log_operation_def audit_entry_def Let_def logger_log_def)

lemma execute_and_log_write_fails:
  "execute_and_log s op ne st (w\<lparr>log_write := Write_fails e\<rparr>)
   = (case execute_and_log s op ne st (w\<lparr>log_write := Write_ok\<rparr>) of
        (s', r) \<Rightarrow>
          (logger_log (s'\<lparr>log_file := log_file s\<rparr>)
             ERROR (py ''Failed to write audit log: '' @ e) (handling w 2), r))"
proof -
  have *: "(case run_process s cmd op env w of
              (s1, res, msg) \<Rightarrow>
                (log_operation s1 op res msg st (w\<lparr>log_write := Write_fails e\<rparr>), res, msg))
           = (case (case run_process s cmd op env w of
                      (s1, res, msg) \<Rightarrow>
                        (log_operation s1 op res msg st (w\<lparr>log_write := Write_ok\<rparr>), res, msg)) of
                (s', r) \<Rightarrow>
                  (logger_log (s'\<lparr>log_file := log_file s\<rparr>)
                     ERROR (py ''Failed to write audit log: '' @ e) (handling w 2), r))"
    for cmd env
  proof (cases "run_process s cmd op env w")
    case (fields s1 res msg)
    from run_process_frame(2)[OF fields] show ?thesis
      by (simp add: fields log_operation_write_fails)
  qed
  show ?thesis
    by (simp add: execute_and_log_def Let_def run_process_write * cong: option.case_cong)
qed

section \<open>Strings through \<open>json.dumps\<close> and \<open>json.loads\<close>\<close>

lemma hex_value_hex_digit: "d < 16 \<Longrightarrow> hex_value (hex_digit d) = Some d"
  by (auto simp: hex_value_def hex_digit_def)

lemma hex_sum:
  fixes n :: nat
  assumes "n < 0x10000"
  shows "4096 * (n div 4096 mod 16) + 256 * (n div 256 mod 16) + 16 * (n div 16 mod 16)
         + n mod 16 = n"
proof -
  define a where "a = n div 16"
  define b where "b = a div 16"
  define c where "c = b div 16"
  have b': "n div 256 = b" and c': "n div 4096 = c"
    by (simp_all add: a_def b_def c_def div_mult2_eq[symmetric])
  have "c < 16" using assms unfolding c'[symmetric] by simp
  then have cm: "c mod 16 = c" by simp
  have 1: "n = 16 * a + n mod 16" by (simp add: a_def)
  have 2: "a = 16 * b + a mod 16" by (simp add: b_def)
  have 3: "b = 16 * c + b mod 16" by (simp add: c_def)
  have "4096 * c + 256 * (b mod 16) + 16 * (a mod 16) + n mod 16 = n"
    using 1 2 3 by linarith
  then show ?thesis by (simp add: b' c' cm a_def[symmetric])
qed

lemma decode_hex4:
  assumes "n < 0x10000"
  shows "decode_uXXXX (hex4 n @ rest) = Some n"
  by (simp add: decode_uXXXX_def hex4_def hex_value_hex_digit hex_sum[OF assms])

lemma length_hex4: "length (hex4 n) = 4"
  by (simp add: hex4_def)

lemma join_surrogates_Cons:
  "\<not> (0xD800 \<le> c \<and> c \<le> 0xDBFF) \<Longrightarrow> join_surrogates (c # cs) = c # join_surrogates cs"
  by (cases cs) auto

text \<open>The four shapes of an escaped code point.\<close>

lemma escape_cp_short:
  assumes "c = 92 \<or> c = 34 \<or> c = 8 \<or> c = 12 \<or> c = 10 \<or> c = 13 \<or> c = 9"
  shows "\<exists>e. escape_cp c = [92, e] \<and> backslash e = Some c \<and> e \<noteq> 117"
  using assms by (elim disjE) (simp_all add: escape_cp_def backslash_def)

lemma escape_cp_plain:
  "32 \<le> c \<Longrightarrow> c \<le> 126 \<Longrightarrow> c \<noteq> 92 \<Longrightarrow> c \<noteq> 34 \<Longrightarrow> escape_cp c = [c]"
  by (simp add: escape_cp_def)

lemma escape_cp_bmp:
  assumes "\<not> (c = 92 \<or> c = 34 \<or> c = 8 \<or> c = 12 \<or> c = 10 \<or> c = 13 \<or> c = 9)"
    and "\<not> (32 \<le> c \<and> c \<le> 126)" and "c < 0x10000"
  shows "escape_cp c = [92, 117] @ hex4 c"
  using assms by (simp add: escape_cp_def)

lemma escape_cp_astral:
  assumes "0x10000 \<le> c"
  shows "escape_cp c = [92, 117] @ hex4 (0xD800 + (c - 0x10000) div 0x400 mod 0x400)
           @ [92, 117] @ hex4 (0xDC00 + (c - 0x10000) mod 0x400)"
  using assms by (simp add: escape_cp_def)

text \<open>One step of \<open>scanstring\<close> on each shape.\<close>

lemma scanstring_short:
  "backslash e = Some c \<Longrightarrow> e \<noteq> 117 \<Longrightarrow>
     scanstring (92 # e # rest) = cons_char c (scanstring rest)"
  by simp

lemma scanstring_plain:
  "32 \<le> c \<Longrightarrow> c \<noteq> 92 \<Longrightarrow> c \<noteq> 34 \<Longrightarrow> scanstring (c # rest) = cons_char c (scanstring rest)"
  by simp

lemma scanstring_u_alone:
  assumes "n < 0x10000"
    and "\<not> (0xD800 \<le> n \<and> n \<le> 0xDBFF) \<or> take 2 rest \<noteq> [92, 117]"
  shows "scanstring (92 # 117 # hex4 n @ rest) = cons_char n (scanstring rest)"
  using assms by (auto simp: decode_hex4 length_hex4)

lemma scanstring_u_unpaired:
  assumes "n < 0x10000" and "m < 0x10000" and "\<not> (0xDC00 \<le> m \<and> m \<le> 0xDFFF)"
  shows "scanstring (92 # 117 # hex4 n @ 92 # 117 # hex4 m @ rest)
         = cons_char n (scanstring (92 # 117 # hex4 m @ rest))"
proof -
  have "drop 6 (hex4 n @ 92 # 117 # hex4 m @ rest) = hex4 m @ rest"
    by (simp add: hex4_def)
  with assms show ?thesis
    by (subst scanstring.simps(2)) (auto simp: decode_hex4 length_hex4 simp del: scanstring.simps)
qed

lemma scanstring_u_paired:
  assumes "0xD800 \<le> n" "n \<le> 0xDBFF" "0xDC00 \<le> m" "m \<le> 0xDFFF"
  shows "scanstring (92 # 117 # hex4 n @ 92 # 117 # hex4 m @ rest)
         = cons_char (0x10000 + ((n - 0xD800) * 0x400 + (m - 0xDC00))) (scanstring rest)"
proof -
  have "drop 6 (hex4 n @ 92 # 117 # hex4 m @ rest) = hex4 m @ rest"
    "drop 10 (hex4 n @ 92 # 117 # hex4 m @ rest) = rest"
    by (simp_all add: hex4_def)
  moreover have "n < 0x10000" "m < 0x10000" using assms by simp_all
  ultimately show ?thesis using assms
    by (simp add: decode_hex4 length_hex4)
qed


text \<open>
  The round trip of a string: what comes back is the string with its surrogate pairs
  joined.
\<close>

lemma scanstring_escaped:
  assumes "is_str s"
  shows "scanstring (concat (map escape_cp s) @ 34 # rest) = Some (join_surrogates s, rest)"
  using assms
proof (induction s rule: join_surrogates.induct)
  case (1 h l cs)
  let ?tail = "concat (map escape_cp cs) @ 34 # rest"
  from "1.prems" have hl: "h < 0x110000" "l < 0x110000" and scs: "is_str cs" and slcs: "is_str (l # cs)"
    by (simp_all add: is_str_def)
  show ?case
  proof (cases "0xD800 \<le> h \<and> h \<le> 0xDBFF")
    case high: True
    then have eh: "escape_cp h = [92, 117] @ hex4 h"
      by (intro escape_cp_bmp) auto
    show ?thesis
    proof (cases "0xDC00 \<le> l \<and> l \<le> 0xDFFF")
      case low: True
      then have el: "escape_cp l = [92, 117] @ hex4 l"
        by (intro escape_cp_bmp) auto
      from "1.IH"(1) high low scs have "scanstring ?tail = Some (join_surrogates cs, rest)" by simp
      with high low show ?thesis
        by (simp add: eh el scanstring_u_paired cons_char_def del: scanstring.simps)
    next
      case notlow: False
      from "1.IH"(2) notlow slcs
      have ih: "scanstring (escape_cp l @ ?tail) = Some (join_surrogates (l # cs), rest)" by simp
      have "scanstring (92 # 117 # hex4 h @ escape_cp l @ ?tail)
            = cons_char h (scanstring (escape_cp l @ ?tail))"
      proof (cases "l = 92 \<or> l = 34 \<or> l = 8 \<or> l = 12 \<or> l = 10 \<or> l = 13 \<or> l = 9")
        case True
        from escape_cp_short[OF this] obtain e where "escape_cp l = [92, e]" "e \<noteq> 117" by blast
        then show ?thesis using high
          by (intro scanstring_u_alone) auto
      next
        case ns: False
        show ?thesis
        proof (cases "32 \<le> l \<and> l \<le> 126")
          case True
          with ns have "escape_cp l = [l]" "l \<noteq> 92" by (auto intro: escape_cp_plain)
          then show ?thesis using high
            by (intro scanstring_u_alone) auto
        next
          case np: False
          show ?thesis
          proof (cases "l < 0x10000")
            case True
            with ns np have "escape_cp l = [92, 117] @ hex4 l" by (intro escape_cp_bmp)
            then show ?thesis using high True notlow
              by (simp add: scanstring_u_unpaired del: scanstring.simps)
          next
            case False
            then have "escape_cp l = [92, 117] @ hex4 (0xD800 + (l - 0x10000) div 0x400 mod 0x400)
                 @ [92, 117] @ hex4 (0xDC00 + (l - 0x10000) mod 0x400)"
              by (intro escape_cp_astral) simp
            moreover have "0xD800 + (l - 0x10000) div 0x400 mod 0x400 < (0x10000::nat)"
              "\<not> (0xDC00 \<le> 0xD800 + (l - 0x10000) div 0x400 mod 0x400
                  \<and> 0xD800 + (l - 0x10000) div 0x400 mod 0x400 \<le> (0xDFFF::nat))"
              by simp_all
            ultimately show ?thesis using high
              by (simp add: scanstring_u_unpaired del: scanstring.simps)
          qed
        qed
      qed
      with ih notlow show ?thesis
        by (simp add: eh cons_char_def del: scanstring.simps)
    qed
  next
    case nothigh: False
    from "1.IH"(2) nothigh slcs
    have ih: "scanstring (escape_cp l @ ?tail) = Some (join_surrogates (l # cs), rest)" by auto
    have "scanstring (escape_cp h @ escape_cp l @ ?tail)
          = cons_char h (scanstring (escape_cp l @ ?tail))"
    proof (cases "h = 92 \<or> h = 34 \<or> h = 8 \<or> h = 12 \<or> h = 10 \<or> h = 13 \<or> h = 9")
      case True
      from escape_cp_short[OF this] obtain e where
        "escape_cp h = [92, e]" "backslash e = Some h" "e \<noteq> 117" by blast
      then show ?thesis by (simp add: scanstring_short del: scanstring.simps)
    next
      case ns: False
      show ?thesis
      proof (cases "32 \<le> h \<and> h \<le> 126")
        case True
        with ns have "escape_cp h = [h]" by (auto intro: escape_cp_plain)
        with True ns show ?thesis by (simp add: scanstring_plain del: scanstring.simps)
      next
        case np: False
        show ?thesis
        proof (cases "h < 0x10000")
          case True
          with ns np have "escape_cp h = [92, 117] @ hex4 h" by (intro escape_cp_bmp)
          with True nothigh show ?thesis
            by (simp add: scanstring_u_alone del: scanstring.simps)
        next
          case False
          then have e: "escape_cp h = [92, 117] @ hex4 (0xD800 + (h - 0x10000) div 0x400 mod 0x400)
               @ [92, 117] @ hex4 (0xDC00 + (h - 0x10000) mod 0x400)"
            by (intro escape_cp_astral) simp
          from False hl have "(h - 0x10000) div 0x400 < 0x400" by simp
          then have m: "(h - 0x10000) div 0x400 mod 0x400 = (h - 0x10000) div 0x400" by simp
          have "0x10000 + ((0xD800 + (h - 0x10000) div 0x400 - 0xD800) * 0x400
                  + (0xDC00 + (h - 0x10000) mod 0x400 - 0xDC00)) = h"
            using False by simp
          moreover have "(0xD800::nat) \<le> 0xD800 + (h - 0x10000) div 0x400"
            "0xD800 + (h - 0x10000) div 0x400 \<le> (0xDBFF::nat)"
            "(0xDC00::nat) \<le> 0xDC00 + (h - 0x10000) mod 0x400"
            "0xDC00 + (h - 0x10000) mod 0x400 \<le> (0xDFFF::nat)"
            using \<open>(h - 0x10000) div 0x400 < 0x400\<close> by simp_all
          ultimately show ?thesis
            by (simp add: e m scanstring_u_paired del: scanstring.simps)
        qed
      qed
    qed
    with ih nothigh show ?thesis
      by (auto simp: cons_char_def simp del: scanstring.simps)
  qed
next
  case "2_1"
  show ?case by simp
next
  case "2_2"
  have "scanstring (escape_cp c @ 34 # rest) = cons_char c (scanstring (34 # rest))"
    if c: "c < 0x110000" for c
  proof (cases "c = 92 \<or> c = 34 \<or> c = 8 \<or> c = 12 \<or> c = 10 \<or> c = 13 \<or> c = 9")
    case True
    from escape_cp_short[OF this] obtain e where
      "escape_cp c = [92, e]" "backslash e = Some c" "e \<noteq> 117" by blast
    then show ?thesis by (simp add: scanstring_short del: scanstring.simps)
  next
    case ns: False
    show ?thesis
    proof (cases "32 \<le> c \<and> c \<le> 126")
      case True
      with ns have "escape_cp c = [c]" by (auto intro: escape_cp_plain)
      with True ns show ?thesis by (simp add: scanstring_plain del: scanstring.simps)
    next
      case np: False
      show ?thesis
      proof (cases "c < 0x10000")
        case True
        with ns np have "escape_cp c = [92, 117] @ hex4 c" by (intro escape_cp_bmp)
        with True show ?thesis
          by (simp add: scanstring_u_alone del: scanstring.simps)
      next
        case False
        then have e: "escape_cp c = [92, 117] @ hex4 (0xD800 + (c - 0x10000) div 0x400 mod 0x400)
             @ [92, 117] @ hex4 (0xDC00 + (c - 0x10000) mod 0x400)"
          by (intro escape_cp_astral) simp
        from False c have d: "(c - 0x10000) div 0x400 < 0x400" by simp
        then have m: "(c - 0x10000) div 0x400 mod 0x400 = (c - 0x10000) div 0x400" by simp
        have "0x10000 + ((0xD800 + (c - 0x10000) div 0x400 - 0xD800) * 0x400
                + (0xDC00 + (c - 0x10000) mod 0x400 - 0xDC00)) = c"
          using False by simp
        moreover have "(0xD800::nat) \<le> 0xD800 + (c - 0x10000) div 0x400"
          "0xD800 + (c - 0x10000) div 0x400 \<le> (0xDBFF::nat)"
          "(0xDC00::nat) \<le> 0xDC00 + (c - 0x10000) mod 0x400"
          "0xDC00 + (c - 0x10000) mod 0x400 \<le> (0xDFFF::nat)"
          using d by simp_all
        ultimately show ?thesis
          by (simp add: e m scanstring_u_paired del: scanstring.simps)
      qed
    qed
  qed
  with "2_2" show ?case by (simp add: cons_char_def is_str_def)
qed

lemma join_surrogates_id: "\<not> has_surrogate_pair s \<Longrightarrow> join_surrogates s = s"
  by (induction s rule: join_surrogates.induct) (auto simp: has_surrogate_pair_def)

section \<open>Numbers through \<open>json.dumps\<close> and \<open>json.loads\<close>\<close>

lemma digits_digits: "list_all is_digit (digits n)"
proof (induction n rule: digits.induct)
  case (1 n)
  show ?case
  proof (cases "n < 10")
    case True
    then show ?thesis by (subst digits.simps) (simp add: is_digit_def)
  next
    case False
    have "n mod 10 < 10" by simp
    then have "is_digit (48 + n mod 10)" unfolding is_digit_def by linarith
    with 1[OF False] False show ?thesis by (subst digits.simps) simp
  qed
qed

lemma digits_not_empty: "digits n \<noteq> []"
  by (subst digits.simps) simp

lemma hd_digits: "0 < n \<Longrightarrow> 49 \<le> hd (digits n) \<and> hd (digits n) \<le> 57"
proof (induction n rule: digits.induct)
  case (1 n)
  show ?case
  proof (cases "n < 10")
    case True
    with 1(2) show ?thesis by (subst digits.simps, subst digits.simps) simp
  next
    case False
    then have "0 < n div 10" by simp
    from 1(1)[OF False this] show ?thesis
      using False digits_not_empty[of "n div 10"]
      by (subst digits.simps, subst (2) digits.simps) simp
  qed
qed

lemma takeWhile_digits:
  assumes "list_all is_digit ds" and "\<not> is_digit c"
  shows "takeWhile is_digit (ds @ c # rest) = ds" and "dropWhile is_digit (ds @ c # rest) = c # rest"
  using assms by (induction ds) simp_all

lemma zpad_digits: "list_all is_digit (zpad w n)" and zpad_not_empty: "zpad w n \<noteq> []"
  using digits_digits[of n] digits_not_empty[of n]
  by (auto simp: zpad_def is_digit_def list_all_iff)

text \<open>
  The integer part, the fraction and the exponent of a float's literal, each followed by
  a character that cannot continue it.
\<close>

lemma match_int_digits:
  assumes "\<not> is_digit c"
  shows "match_int ((if neg then [45] else []) @ digits n @ c # rest)
         = Some ((if neg then [45] else []) @ digits n, c # rest)"
proof (cases "n = 0")
  case True
  then show ?thesis by (simp add: match_int_def digits.simps)
next
  case False
  then have h: "49 \<le> hd (digits n) \<and> hd (digits n) \<le> 57" by (intro hd_digits) simp
  obtain d ds where d: "digits n = d # ds"
    using digits_not_empty[of n] by (cases "digits n") auto
  with digits_digits[of n] have "list_all is_digit ds" by simp
  from takeWhile_digits[OF this assms] h d show ?thesis
    by (simp add: match_int_def)
qed

lemma match_frac_digits:
  assumes "\<not> is_digit c" and "c \<noteq> 46"
  shows "match_frac ((if fr = [] then [] else 46 # map (\<lambda>d. 48 + d mod 10) fr) @ c # rest)
         = ((if fr = [] then [] else 46 # map (\<lambda>d. 48 + d mod 10) fr), c # rest)"
proof (cases fr)
  case Nil
  with assms show ?thesis
    by (cases rest) (auto simp: match_frac_def is_digit_def)
next
  case (Cons d ds)
  have dd: "is_digit (48 + x mod 10)" for x :: nat
  proof -
    have "x mod 10 < 10" by simp
    then show ?thesis unfolding is_digit_def by linarith
  qed
  then have "list_all is_digit (map (\<lambda>d. 48 + d mod 10) ds)"
    by (simp add: list_all_iff)
  from takeWhile_digits[OF this assms(1)] Cons dd[of d] show ?thesis
    by (simp add: match_frac_def)
qed

lemma match_exp_digits:
  assumes "\<not> is_digit c" and "c \<noteq> 101" and "c \<noteq> 69"
  shows "match_exp ((case ex of None \<Rightarrow> []
                     | Some e \<Rightarrow> 101 # (if e < 0 then 45 else 43) # zpad 2 (nat \<bar>e\<bar>)) @ c # rest)
         = ((case ex of None \<Rightarrow> []
             | Some e \<Rightarrow> 101 # (if e < 0 then 45 else 43) # zpad 2 (nat \<bar>e\<bar>)), c # rest)"
proof (cases ex)
  case None
  with assms show ?thesis by (simp add: match_exp_def)
next
  case (Some e)
  obtain z zs where z: "zpad 2 (nat \<bar>e\<bar>) = z # zs"
    using zpad_not_empty[of 2 "nat \<bar>e\<bar>"] by (cases "zpad 2 (nat \<bar>e\<bar>)") auto
  with zpad_digits[of 2 "nat \<bar>e\<bar>"] have zd: "is_digit z" "list_all is_digit zs" by simp_all
  from takeWhile_digits[OF zd(2) assms(1)] Some z zd(1) show ?thesis
    by (simp add: match_exp_def)
qed

lemma match_number_float_repr:
  assumes "t = 44 \<or> t = 125"
  shows "match_number (float_repr f @ t # rest) = Some (float_repr f, t # rest)"
proof -
  have nd: "\<not> is_digit t" "t \<noteq> 46" "t \<noteq> 101" "t \<noteq> 69"
    "\<not> is_digit 46" "\<not> is_digit 101"
    using assms by (auto simp: is_digit_def)
  let ?i = "(if negative f then [45] else []) @ digits (whole f)"
  let ?f = "if fraction f = [] then [] else 46 # map (\<lambda>d. 48 + d mod 10) (fraction f)"
  let ?e = "case exponent f of None \<Rightarrow> []
            | Some e \<Rightarrow> 101 # (if e < 0 then 45 else 43) # zpad 2 (nat \<bar>e\<bar>)"
  have r: "float_repr f = ?i @ ?f @ ?e"
    by (simp add: float_repr_def py_def)
  obtain c cs where c: "?f @ ?e @ t # rest = c # cs" and cd: "\<not> is_digit c"
  proof (cases "fraction f = []")
    case False
    then show ?thesis using that[of 46] nd by simp
  next
    case True
    show ?thesis
    proof (cases "exponent f")
      case None
      with True show ?thesis using that[of t] nd by simp
    next
      case (Some e)
      with True show ?thesis using that[of 101] nd by simp
    qed
  qed
  have 1: "match_int (?i @ ?f @ ?e @ t # rest) = Some (?i, ?f @ ?e @ t # rest)"
    using match_int_digits[OF cd, of "negative f" "whole f" cs] c by simp
  obtain c2 cs2 where c2: "?e @ t # rest = c2 # cs2" and c2d: "\<not> is_digit c2" "c2 \<noteq> 46"
  proof (cases "exponent f")
    case None
    then show ?thesis using that[of t] nd by simp
  next
    case (Some e)
    then show ?thesis using that[of 101] nd by simp
  qed
  have 2: "match_frac (?f @ ?e @ t # rest) = (?f, ?e @ t # rest)"
    using match_frac_digits[OF c2d, of "fraction f" cs2] c2 by simp
  have 3: "match_exp (?e @ t # rest) = (?e, t # rest)"
    using match_exp_digits[of t "exponent f" rest] nd by simp
  show ?thesis
    unfolding r
    by (simp only: match_number_def append_assoc 1[unfolded append_assoc] 2 3
        option.case prod.case)
qed

lemma float_repr_head:
  "\<exists>c cs. float_repr f = c # cs \<and> (c = 45 \<or> is_digit c)"
proof (cases "negative f")
  case True
  then show ?thesis by (simp add: float_repr_def py_def)
next
  case False
  obtain d ds where d: "digits (whole f) = d # ds"
    using digits_not_empty[of "whole f"] by (cases "digits (whole f)") auto
  with digits_digits[of "whole f"] have "is_digit d" by simp
  with False d show ?thesis by (simp add: float_repr_def)
qed

lemma scan_once_float_repr:
  assumes "t = 44 \<or> t = 125"
  shows "scan_once (Suc n) (float_repr f @ t # rest) = Some (JNum (float_repr f), t # rest)"
proof -
  from float_repr_head[of f] obtain c cs where
    c: "float_repr f = c # cs" and h: "c = 45 \<or> is_digit c" by blast
  have m: "match_number (c # cs @ t # rest) = Some (c # cs, t # rest)"
    using match_number_float_repr[OF assms, of f rest] c by simp
  from h have "c \<noteq> 34" "c \<noteq> 123" "c \<noteq> 91" "c \<noteq> 110" "c \<noteq> 116" "c \<noteq> 102"
    by (auto simp: is_digit_def)
  then show ?thesis
    by (simp add: c m py_def del: match_number_def)
qed

section \<open>Objects through \<open>json.dumps\<close> and \<open>json.loads\<close>\<close>

lemma reads_back_mono: "reads_back n v v' \<Longrightarrow> n \<le> k \<Longrightarrow> reads_back k v v'"
  by (simp add: reads_back_def)

lemma reads_back_str:
  assumes "is_str s"
  shows "reads_back 1 (JStr s) (JStr (join_surrogates s))"
proof -
  have "scan_once m (json_dumps (JStr s) @ rest) = Some (JStr (join_surrogates s), rest)"
    if "1 \<le> m" for m rest
  proof -
    from that obtain k where "m = Suc k" by (cases m) auto
    then show ?thesis
      using scanstring_escaped[OF assms, of rest]
      by (simp add: encode_basestring_ascii_def del: scanstring.simps)
  qed
  then show ?thesis
    by (simp add: reads_back_def encode_basestring_ascii_def is_ws_def)
qed

lemma reads_back_null: "reads_back 1 JNull JNull"
proof -
  have "scan_once m (json_dumps JNull @ rest) = Some (JNull, rest)" if "1 \<le> m" for m rest
  proof -
    from that obtain k where "m = Suc k" by (cases m) auto
    then show ?thesis by (simp add: py_def)
  qed
  then show ?thesis
    by (simp add: reads_back_def is_ws_def) (simp add: py_def)
qed

lemma reads_back_float: "reads_back 1 (JNum (float_repr f)) (JNum (float_repr f))"
proof -
  have "scan_once m (json_dumps (JNum (float_repr f)) @ t # rest)
        = Some (JNum (float_repr f), t # rest)"
    if "1 \<le> m" and "t = 44 \<or> t = 125" for m t rest
  proof -
    from that(1) obtain k where "m = Suc k" by (cases m) auto
    then show ?thesis using scan_once_float_repr[OF that(2), of k f rest] by simp
  qed
  moreover from float_repr_head[of f] have "float_repr f \<noteq> [] \<and> \<not> is_ws (hd (float_repr f))"
    by (auto simp: is_ws_def is_digit_def)
  ultimately show ?thesis
    by (simp add: reads_back_def)
qed

text \<open>
  The members of an object, as \<open>json.dumps\<close> writes them between the braces, read from
  behind the quote that opens the first key.
\<close>

lemma join_Cons: "join sep (x # xs) = x @ (if xs = [] then [] else sep @ join sep xs)"
  by (cases xs) simp_all

lemma skip_ws_not_ws: "s \<noteq> [] \<Longrightarrow> \<not> is_ws (hd s) \<Longrightarrow> skip_ws (s @ r) = s @ r"
  by (cases s) (simp_all add: skip_ws_def)

lemma skip_ws_space: "skip_ws (32 # s) = skip_ws s"
  by (simp add: skip_ws_def is_ws_def)

lemma skip_ws_Cons: "\<not> is_ws c \<Longrightarrow> skip_ws (c # r) = c # r"
  by (simp add: skip_ws_def)

lemma scan_members_joined:
  assumes "list_all2 (\<lambda>p q. is_str (fst p) \<and> fst q = join_surrogates (fst p)
                          \<and> reads_back n (snd p) (snd q)) ps qs"
    and "ps \<noteq> []" and "n + length ps \<le> m"
  shows "scan_members m
           (tl (join (py '', '')
                  (map (\<lambda>p. encode_basestring_ascii (fst p) @ py '': '' @ json_dumps (snd p)) ps))
            @ 125 # rest)
         = Some (qs, rest)"
  using assms
proof (induction ps qs arbitrary: m rule: list_all2_induct)
  case Nil
  then show ?case by simp
next
  case (Cons p ps q qs)
  let ?member = "\<lambda>p. encode_basestring_ascii (fst p) @ py '': '' @ json_dumps (snd p)"
  from Cons.prems obtain k where m: "m = Suc k" and k: "n + length ps \<le> k"
    by (cases m) auto
  from Cons.hyps(1) have kp: "is_str (fst p)" and kq: "fst q = join_surrogates (fst p)"
    and rb: "reads_back n (snd p) (snd q)" by simp_all
  from rb k have v44: "scan_once k (json_dumps (snd p) @ 44 # r) = Some (snd q, 44 # r)"
    and v125: "scan_once k (json_dumps (snd p) @ 125 # r) = Some (snd q, 125 # r)" for r
    by (simp_all add: reads_back_def)
  from rb have nws: "json_dumps (snd p) \<noteq> []" "\<not> is_ws (hd (json_dumps (snd p)))"
    by (simp_all add: reads_back_def)
  have sw: "skip_ws (32 # json_dumps (snd p) @ r) = json_dumps (snd p) @ r" for r
    using skip_ws_not_ws[OF nws] by (simp add: skip_ws_space)
  have key: "scanstring (concat (map escape_cp (fst p)) @ 34 # r) = Some (fst q, r)" for r
    using scanstring_escaped[OF kp, of r] kq by simp
  have shape: "tl (join (py '', '') (map ?member (p # ps))) @ 125 # rest
          = concat (map escape_cp (fst p)) @ 34 # 58 # 32 # json_dumps (snd p)
            @ (if ps = [] then [] else 44 # 32 # join (py '', '') (map ?member ps)) @ 125 # rest"
    by (simp add: join_Cons encode_basestring_ascii_def py_def)
  show ?case
  proof (cases ps)
    case Nil
    with Cons.hyps(2) have "qs = []" by simp
    with Nil show ?thesis
      unfolding shape
      by (simp add: m key sw v125 skip_ws_Cons is_ws_def del: scanstring.simps
          scan_once.simps)
  next
    case (Cons p2 ps2)
    then have ne: "ps \<noteq> []" by simp
    have x: "join (py '', '') (map ?member ps)
               = 34 # tl (join (py '', '') (map ?member ps))"
      unfolding Cons by (simp add: join_Cons encode_basestring_ascii_def)
    have sq: "skip_ws (32 # 34 # r) = 34 # r" for r
      by (simp add: skip_ws_def is_ws_def)
    from Cons.IH[OF ne k]
    have ih: "scan_members k (tl (join (py '', '') (map ?member ps)) @ 125 # rest)
              = Some (qs, rest)" .
    have "scan_members (Suc k)
            (concat (map escape_cp (fst p)) @ 34 # 58 # 32 # json_dumps (snd p)
             @ 44 # 32 # 34 # tl (join (py '', '') (map ?member ps)) @ 125 # rest)
          = Some (q # qs, rest)"
      by (simp add: key sw v44 ih sq skip_ws_Cons is_ws_def del: scanstring.simps
          scan_once.simps)
    moreover have "tl (join (py '', '') (map ?member (p # ps))) @ 125 # rest
          = concat (map escape_cp (fst p)) @ 34 # 58 # 32 # json_dumps (snd p)
             @ 44 # 32 # 34 # tl (join (py '', '') (map ?member ps)) @ 125 # rest"
      unfolding shape using ne by (subst x) simp
    ultimately show ?thesis by (simp only: m)
  qed
qed

lemma scan_once_object:
  assumes "list_all2 (\<lambda>p q. is_str (fst p) \<and> fst q = join_surrogates (fst p)
                          \<and> reads_back n (snd p) (snd q)) ps qs"
    and "ps \<noteq> []" and "Suc (n + length ps) \<le> m"
  shows "scan_once m (json_dumps (JObj ps) @ rest) = Some (JObj qs, rest)"
proof -
  let ?member = "\<lambda>p. encode_basestring_ascii (fst p) @ py '': '' @ json_dumps (snd p)"
  from assms(3) obtain k where m: "m = Suc k" and k: "n + length ps \<le> k"
    by (cases m) auto
  obtain p ps' where ps: "ps = p # ps'" using assms(2) by (cases ps) auto
  have j: "join (py '', '') (map ?member ps) = 34 # tl (join (py '', '') (map ?member ps))"
    unfolding ps by (simp add: join_Cons encode_basestring_ascii_def)
  have "json_dumps (JObj ps) @ rest
        = 123 # 34 # tl (join (py '', '') (map ?member ps)) @ 125 # rest"
    using j by (simp add: py_def)
  with scan_members_joined[OF assms(1,2) k, of rest] show ?thesis
    by (simp add: m skip_ws_Cons is_ws_def del: scan_members.simps)
qed

lemma reads_back_object:
  assumes "list_all2 (\<lambda>p q. is_str (fst p) \<and> fst q = join_surrogates (fst p)
                          \<and> reads_back n (snd p) (snd q)) ps qs"
    and "ps \<noteq> []"
  shows "reads_back (Suc (n + length ps)) (JObj ps) (JObj qs)"
  using scan_once_object[OF assms]
  by (simp add: reads_back_def py_def is_ws_def)

section \<open>A log line, written and read\<close>

lemma is_str_digits: "is_str (digits n)"
  using digits_digits[of n] by (auto simp: is_str_def list_all_iff is_digit_def)

lemma is_str_zpad: "is_str (zpad w n)"
  using is_str_digits[of n] by (auto simp: is_str_def zpad_def list_all_iff)

lemma is_str_append: "is_str (a @ b) = (is_str a \<and> is_str b)"
  by (simp add: is_str_def)

lemma is_str_isoformat: "is_str (isoformat d)"
  by (simp add: isoformat_def is_str_append is_str_zpad) (simp add: is_str_def py_def)

lemma py_strip_line:
  assumes "\<not> py_isspace a" "\<not> py_isspace b"
  shows "py_strip (a # xs @ [b, 10]) = a # xs @ [b]"
proof -
  have nl: "py_isspace 10" by (simp add: py_isspace_def)
  from assms(1) have "dropWhile py_isspace (a # xs @ [b, 10]) = a # xs @ [b, 10]" by simp
  moreover have "rev (a # xs @ [b, 10]) = 10 # b # rev xs @ [a]" by simp
  moreover from nl assms(2)
  have "dropWhile py_isspace (10 # b # rev xs @ [a]) = b # rev xs @ [a]" by simp
  ultimately show ?thesis by (simp add: py_strip_def)
qed

text \<open>
  What \<open>json.loads(line.strip())\<close> returns for the line \<open>_log_operation\<close> writes for an
  entry: the dictionary that was written, with the surrogate pairs of its strings
  joined.
\<close>

lemma log_line_read_back:
  assumes "is_entry e"
  shows "json_loads (py_strip (json_dumps (log_entry e) @ [10]))
         = Some (JObj
             [(py ''timestamp'', JStr (join_surrogates (isoformat (timestamp e)))),
              (py ''operation'', JStr (join_surrogates (operation e))),
              (py ''permission_level'', JStr (join_surrogates (entry_permission_level e))),
              (py ''result'', JStr (join_surrogates (result e))),
              (py ''user'', JStr (join_surrogates (user e))),
              (py ''details'',
               JObj [(py ''description'',
                      JStr (join_surrogates (detail_description (details e)))),
                     (py ''duration_seconds'', JNum (float_repr (duration_seconds (details e)))),
                     (py ''message'', JStr (join_surrogates (message (details e)))),
                     (py ''working_directory'',
                      (case detail_working_directory (details e) of
                         None \<Rightarrow> JNull
                       | Some d \<Rightarrow> JStr (join_surrogates d)))])])"
    (is "json_loads (py_strip (json_dumps (log_entry e) @ [10])) = Some (JObj ?tq)")
proof -
  let ?wd = "case detail_working_directory (details e) of None \<Rightarrow> JNull | Some d \<Rightarrow> JStr d"
  let ?wd' = "case detail_working_directory (details e) of
                None \<Rightarrow> JNull | Some d \<Rightarrow> JStr (join_surrogates d)"
  let ?dp = "[(py ''description'', JStr (detail_description (details e))),
              (py ''duration_seconds'', JNum (float_repr (duration_seconds (details e)))),
              (py ''message'', JStr (message (details e))),
              (py ''working_directory'', ?wd)]"
  let ?dq = "[(py ''description'', JStr (join_surrogates (detail_description (details e)))),
              (py ''duration_seconds'', JNum (float_repr (duration_seconds (details e)))),
              (py ''message'', JStr (join_surrogates (message (details e)))),
              (py ''working_directory'', ?wd')]"
  let ?tp = "[(py ''timestamp'', JStr (isoformat (timestamp e))),
              (py ''operation'', JStr (operation e)),
              (py ''permission_level'', JStr (entry_permission_level e)),
              (py ''result'', JStr (result e)),
              (py ''user'', JStr (user e)),
              (py ''details'', JObj ?dp)]"
  have keys: "is_str (py ''description'')" "is_str (py ''duration_seconds'')"
    "is_str (py ''message'')" "is_str (py ''working_directory'')"
    "is_str (py ''timestamp'')" "is_str (py ''operation'')" "is_str (py ''permission_level'')"
    "is_str (py ''result'')" "is_str (py ''user'')" "is_str (py ''details'')"
    by (simp_all add: is_str_def py_def)
  have kj: "join_surrogates (py ''description'') = py ''description''"
    "join_surrogates (py ''duration_seconds'') = py ''duration_seconds''"
    "join_surrogates (py ''message'') = py ''message''"
    "join_surrogates (py ''working_directory'') = py ''working_directory''"
    "join_surrogates (py ''timestamp'') = py ''timestamp''"
    "join_surrogates (py ''operation'') = py ''operation''"
    "join_surrogates (py ''permission_level'') = py ''permission_level''"
    "join_surrogates (py ''result'') = py ''result''"
    "join_surrogates (py ''user'') = py ''user''"
    "join_surrogates (py ''details'') = py ''details''"
    by (simp_all add: py_def)
  from assms have s: "is_str (operation e)" "is_str (entry_permission_level e)"
    "is_str (result e)" "is_str (user e)" "is_str (detail_description (details e))"
    "is_str (message (details e))"
    by (simp_all add: is_entry_def)
  have wd: "reads_back 1 ?wd ?wd'"
  proof (cases "detail_working_directory (details e)")
    case None
    then show ?thesis using reads_back_null by simp
  next
    case (Some d)
    with assms have "is_str d" by (simp add: is_entry_def)
    with Some show ?thesis using reads_back_str[of d] by simp
  qed
  have str1: "reads_back (Suc 0) (JStr x) (JStr (join_surrogates x))" if "is_str x" for x
    using reads_back_str[OF that] by simp
  have num1: "reads_back (Suc 0) (JNum (float_repr f)) (JNum (float_repr f))" for f
    using reads_back_float[of f] by simp
  from wd have wd1: "reads_back (Suc 0) ?wd ?wd'" by simp
  have "list_all2 (\<lambda>p q. is_str (fst p) \<and> fst q = join_surrogates (fst p)
                          \<and> reads_back 1 (snd p) (snd q)) ?dp ?dq"
    by (simp add: keys kj s str1 num1 wd1)
  then have "reads_back (Suc (1 + length ?dp)) (JObj ?dp) (JObj ?dq)"
    by (rule reads_back_object) simp
  moreover have "Suc (1 + length ?dp) = 6" by simp
  ultimately have d: "reads_back 6 (JObj ?dp) (JObj ?dq)" by (simp only:)
  have str6: "reads_back 6 (JStr x) (JStr (join_surrogates x))" if "is_str x" for x
    using reads_back_mono[OF reads_back_str[OF that], of 6] by simp
  have top: "list_all2 (\<lambda>p q. is_str (fst p) \<and> fst q = join_surrogates (fst p)
                          \<and> reads_back 6 (snd p) (snd q)) ?tp ?tq"
    by (simp add: keys kj s str6 is_str_isoformat d)
  have scan: "scan_once m (json_dumps (JObj ?tp)) = Some (JObj ?tq, [])" if "13 \<le> m" for m
  proof -
    from that have "Suc (6 + length ?tp) \<le> m" by simp
    from scan_once_object[OF top _ this, of "[]"] show ?thesis by simp
  qed
  have le: "log_entry e = JObj ?tp" by (simp add: log_entry_def)
  obtain xs where xs: "json_dumps (JObj ?tp) = 123 # xs @ [125]"
    by (simp add: py_def)
  have len: "12 \<le> length (json_dumps (JObj ?tp))"
    by (simp add: join_Cons encode_basestring_ascii_def py_def)
  have strip: "py_strip (json_dumps (JObj ?tp) @ [10]) = json_dumps (JObj ?tp)"
    unfolding xs using py_strip_line[of 123 125 xs] by (simp add: py_isspace_def)
  have sk: "skip_ws (json_dumps (JObj ?tp)) = json_dumps (JObj ?tp)"
    unfolding xs by (simp add: skip_ws_def is_ws_def)
  have hd: "json_dumps (JObj ?tp) \<noteq> [] \<and> hd (json_dumps (JObj ?tp)) \<noteq> 0xFEFF"
    unfolding xs by simp
  from len have "13 \<le> Suc (length (json_dumps (JObj ?tp)))" by simp
  from scan[OF this] show ?thesis
    unfolding le strip
    by (simp only: json_loads_def sk hd) (simp add: skip_ws_def)
qed

section \<open>The lines of the audit file\<close>

text \<open>A log line is printable ASCII, so the file has one line for each.\<close>

lemma hex_digit_printable: "d < 16 \<Longrightarrow> hex_digit d \<in> {32..126}"
  by (simp add: hex_digit_def)

lemma hex4_printable: "set (hex4 n) \<subseteq> {32..126}"
  unfolding hex4_def by (simp only: list.set insert_subset empty_subsetI hex_digit_printable
      mod_less_divisor zero_less_numeral simp_thms)

lemma escape_cp_printable: "set (escape_cp c) \<subseteq> {32..126}"
  using hex4_printable by (simp add: escape_cp_def)

lemma encode_basestring_ascii_printable: "set (encode_basestring_ascii s) \<subseteq> {32..126}"
  using escape_cp_printable by (auto simp: encode_basestring_ascii_def)

lemma digits_printable: "set (digits n) \<subseteq> {32..126}"
  using digits_digits[of n] by (auto simp: list_all_iff is_digit_def)

lemma zpad_printable: "set (zpad w n) \<subseteq> {32..126}"
  using digits_printable[of n] by (auto simp: zpad_def)

lemma float_repr_printable: "set (float_repr f) \<subseteq> {32..126}"
proof -
  have "48 + d mod 10 \<in> {32..126}" for d :: nat by simp
  then have "set (map (\<lambda>d. 48 + d mod 10) (fraction f)) \<subseteq> {32..126}" by auto
  with digits_printable[of "whole f"] zpad_printable show ?thesis
    by (auto simp: float_repr_def py_def split: option.splits)
qed

lemma log_line_printable: "set (json_dumps (log_entry e)) \<subseteq> {32..126}"
proof -
  have wd: "set (json_dumps (case detail_working_directory (details e) of
                               None \<Rightarrow> JNull | Some d \<Rightarrow> JStr d)) \<subseteq> {32..126}"
    using encode_basestring_ascii_printable
    by (cases "detail_working_directory (details e)") (simp_all add: py_def)
  have lit: "set (py '', '') \<subseteq> {32..126}" "set (py '': '') \<subseteq> {32..126}"
    "set (py ''{'') \<subseteq> {32..126}" "set (py ''}'') \<subseteq> {32..126}"
    by (simp_all add: py_def)
  show ?thesis
    using encode_basestring_ascii_printable float_repr_printable wd lit
    by (simp add: log_entry_def join_Cons)
qed

lemma universal_newlines_line:
  "13 \<notin> set l \<Longrightarrow> universal_newlines (l @ 10 # rest) = l @ 10 # universal_newlines rest"
proof (induction l)
  case Nil
  then show ?case by (cases rest) simp_all
next
  case (Cons c l)
  then show ?case by (cases l) simp_all
qed

lemma split_lines_line:
  "10 \<notin> set l \<Longrightarrow> split_lines acc (l @ 10 # rest) = (acc @ l @ [10]) # split_lines [] rest"
  by (induction l arbitrary: acc) simp_all

lemma readlines_line:
  assumes "10 \<notin> set l" "13 \<notin> set l"
  shows "readlines (l @ 10 # rest) = (l @ [10]) # readlines rest"
  using universal_newlines_line[OF assms(2)] split_lines_line[OF assms(1), of "[]"]
  by (simp add: readlines_def)

lemma readlines_log_line:
  "readlines (json_dumps (log_entry e) @ 10 # rest)
   = (json_dumps (log_entry e) @ [10]) # readlines rest"
proof -
  have "10 \<notin> set (json_dumps (log_entry e))" "13 \<notin> set (json_dumps (log_entry e))"
    using log_line_printable[of e] by auto
  then show ?thesis by (rule readlines_line)
qed

text \<open>
  The file that holds the line of one entry has one parsed entry, and its four top-level
  strings are those of the entry with their surrogate pairs joined.
\<close>

lemma parsed_log_line:
  assumes "is_entry e"
  shows "\<exists>v. parsed_entries (json_dumps (log_entry e) @ [10]) = [v]
           \<and> getitem v (py ''operation'') = Inr (JStr (join_surrogates (operation e)))
           \<and> getitem v (py ''permission_level'')
               = Inr (JStr (join_surrogates (entry_permission_level e)))
           \<and> getitem v (py ''result'') = Inr (JStr (join_surrogates (result e)))
           \<and> getitem v (py ''user'') = Inr (JStr (join_surrogates (user e)))"
proof -
  have "readlines (json_dumps (log_entry e) @ [10]) = [json_dumps (log_entry e) @ [10]]"
    using readlines_log_line[of e "[]"] by (simp add: readlines_def)
  then have "parsed_entries (json_dumps (log_entry e) @ [10])
             = List.map_filter (\<lambda>line. json_loads (py_strip line))
                 [json_dumps (log_entry e) @ [10]]"
    by (simp add: parsed_entries_def)
  then show ?thesis
    by (simp add: log_line_read_back[OF assms] List.map_filter_def getitem_def py_def)
qed

text \<open>How many entries the summary counts: all of them when \<open>limit\<close> is 0.\<close>

lemma summarize_total_positive:
  assumes "0 < limit" and "summarize entries limit = Summary n succ fail elev recent"
  shows "n = min (length entries) (nat limit)"
  using assms
  by (auto simp: summarize_def Let_def slice_from_def split: sum.splits if_splits)

lemma summarize_total_zero:
  assumes "summarize entries 0 = Summary n succ fail elev recent"
  shows "n = length entries"
  using assms
  by (auto simp: summarize_def Let_def slice_from_def split: sum.splits if_splits)

section \<open>The example runs\<close>

text \<open>The lines of the logger in the examples are no JSON text.\<close>

lemma match_number_2024:
  "match_number (50 # 48 # 50 # 52 # 45 # r) = Some ([50, 48, 50, 52], 45 # r)"
proof -
  have i: "match_int (50 # 48 # 50 # 52 # 45 # r) = Some ([50, 48, 50, 52], 45 # r)"
    by (simp add: match_int_def is_digit_def)
  have f: "match_frac (45 # r) = ([], 45 # r)"
    by (cases r) (simp_all add: match_frac_def)
  have e: "match_exp (45 # r) = ([], 45 # r)"
    by (simp add: match_exp_def)
  show ?thesis by (simp add: match_number_def i f e)
qed

lemma json_loads_2024: "json_loads (50 # 48 # 50 # 52 # 45 # r) = None"
proof -
  have "scan_once (Suc n) (50 # 48 # 50 # 52 # 45 # r) = Some (JNum [50, 48, 50, 52], 45 # r)" for n
    by (simp add: match_number_2024 py_def)
  moreover have "skip_ws (50 # 48 # 50 # 52 # 45 # r) = 50 # 48 # 50 # 52 # 45 # r"
    "skip_ws (45 # r) = 45 # r"
    by (simp_all add: skip_ws_def is_ws_def)
  ultimately show ?thesis by (simp add: json_loads_def del: scan_once.simps)
qed

lemma py_strip_Cons:
  "\<not> py_isspace a \<Longrightarrow> py_strip (a # xs) = a # rev (dropWhile py_isspace (rev xs))"
  by (simp add: py_strip_def dropWhile_append3)

lemma rstrip_Cons:
  "\<not> py_isspace a \<Longrightarrow>
     rev (dropWhile py_isspace (rev (a # xs))) = a # rev (dropWhile py_isspace (rev xs))"
  by (simp add: dropWhile_append3)

lemma example_record_no_json:
  "json_loads (py_strip (py ''2024-05-17 09:30:00,250'' @ x)) = None"
proof -
  have n: "\<not> py_isspace 50" "\<not> py_isspace 48" "\<not> py_isspace 52" "\<not> py_isspace 45"
    by (simp_all add: py_isspace_def)
  have "\<exists>r. py ''2024-05-17 09:30:00,250'' @ x = 50 # 48 # 50 # 52 # 45 # r"
    by (simp add: py_def)
  then obtain r where "py ''2024-05-17 09:30:00,250'' @ x = 50 # 48 # 50 # 52 # 45 # r"
    by blast
  then have "py_strip (py ''2024-05-17 09:30:00,250'' @ x)
             = 50 # 48 # 50 # 52 # 45 # rev (dropWhile py_isspace (rev r))"
    by (simp only: py_strip_Cons rstrip_Cons n not_False_eq_True)
  then show ?thesis by (simp only: json_loads_2024)
qed

text \<open>
  The example manager runs \<open>echo hello\<close>, the process exits with 0 and prints \<open>hello\<close>:
  what the call returns, and what the audit file holds afterwards when the append
  works and when it fails.
\<close>

lemma example_run_ok:
  "\<exists>s'. execute_with_escalation (example_state []) echo_operation
           (example_surroundings (Process_exits 0 (py ''hello'') []) Write_ok)
         = Some (s', Inr (SUCCESS, py ''hello''))
       \<and> session_operations s' = [example_entry]
       \<and> log_file s'
           = Some (py ''2024-05-17 09:30:00,250 - INFO - Attempting privileged operation: Say hello''
                   @ 10 # py ''2024-05-17 09:30:00,250 - INFO - Command: echo hello''
                   @ 10 # json_dumps (log_entry example_entry) @ [10])"
  by (simp add: execute_with_escalation_def check_permission_required_def echo_operation_def
      execute_and_log_def run_process_def log_operation_def example_surroundings_def
      example_state_def example_entry_def log_attempt_def logger_log_def file_handler_text_def
      format_record_def Let_def py_def del: json_dumps.simps)

lemma example_run_write_fails:
  "\<exists>s'. execute_with_escalation (example_state []) echo_operation
           (example_surroundings (Process_exits 0 (py ''hello'') [])
              (Write_fails (py ''disk full'')))
         = Some (s', Inr (SUCCESS, py ''hello''))
       \<and> length (session_operations s') = 1
       \<and> log_file s'
           = Some (py ''2024-05-17 09:30:00,250 - INFO - Attempting privileged operation: Say hello''
                   @ 10 # py ''2024-05-17 09:30:00,250 - INFO - Command: echo hello''
                   @ 10 # py ''2024-05-17 09:30:00,250 - ERROR - Failed to write audit log: disk full''
                   @ [10])"
  by (simp add: execute_with_escalation_def check_permission_required_def echo_operation_def
      execute_and_log_def run_process_def log_operation_def example_surroundings_def
      example_state_def log_attempt_def logger_log_def file_handler_text_def
      format_record_def Let_def py_def)

lemma readlines_example_line:
  assumes "10 \<notin> set x" "13 \<notin> set x"
  shows "readlines (py ''2024-05-17 09:30:00,250'' @ x @ 10 # rest)
         = (py ''2024-05-17 09:30:00,250'' @ x @ [10]) # readlines rest"
proof -
  have "10 \<notin> set (py ''2024-05-17 09:30:00,250'' @ x)" "13 \<notin> set (py ''2024-05-17 09:30:00,250'' @ x)"
    using assms by (simp_all add: py_def)
  from readlines_line[OF this, of rest] show ?thesis by simp
qed

section \<open>Claims about the orchestrator\<close>

text \<open>
  Claim C1, as amended. The claim as stated ("exactly one AuditRecord is appended to
  the audit log, regardless of the outcome") fails when the append to the file fails:
  \<open>_log_operation\<close> catches that exception, and the file gets no record. What holds:
  whenever the consent gate is not consulted or gives an answer, the call returns, it
  appends exactly one AuditEntry for this call to the session history, and it makes one
  attempt to append the entry's JSON line to the audit file. The logger writes to the
  same file: whatever the outcome, the file first gets the lines that the \<open>FileHandler\<close>
  writes for the two INFO records of the call. When the append then works, the JSON
  line of the entry is the one line that follows them, at the end of the file; when it
  fails, no line of the entry is written, and what follows is the line that the
  \<open>FileHandler\<close> writes for the ERROR record of the failure.
\<close>

theorem execute_with_escalation_records_once:
  assumes "\<not> check_permission_required s op \<or> (\<exists>b. consent s op = Some (Inr b))"
  shows "\<exists>s' res msg.
           execute_with_escalation s op w = Some (s', Inr (res, msg))
           \<and> session_operations s'
               = session_operations s @ [audit_entry (current_user s) op res msg (clock_start w) w]
           \<and> log_file s' =
               (case log_write w of
                  Write_ok \<Rightarrow>
                    Some ((case log_file s of
                             None \<Rightarrow> []
                           | Some text \<Rightarrow>
                               text
                               @ file_handler_text (handling w 0) INFO
                                   (py ''Attempting privileged operation: '' @ description op)
                               @ file_handler_text (handling w 1) INFO
                                   (py ''Command: '' @ join (py '' '') (command op)))
                          @ json_dumps
                              (log_entry (audit_entry (current_user s) op res msg (clock_start w) w))
                          @ [10])
                | Write_fails e \<Rightarrow>
                    map_option
                      (\<lambda>text. text
                         @ file_handler_text (handling w 0) INFO
                             (py ''Attempting privileged operation: '' @ description op)
                         @ file_handler_text (handling w 1) INFO
                             (py ''Command: '' @ join (py '' '') (command op))
                         @ file_handler_text (handling w 2) ERROR
                             (py ''Failed to write audit log: '' @ e))
                      (log_file s))"
proof -
  from execute_returns[OF assms, of w] obtain s' res msg where
    x: "execute_with_escalation s op w = Some (s', Inr (res, msg))" and
    h: "session_operations s'
       = session_operations s @ [audit_entry (current_user s) op res msg (clock_start w) w]" and
    f: "log_file s' =
       (case log_write w of
          Write_ok \<Rightarrow>
            Some ((case log_file (log_attempt s op w) of None \<Rightarrow> [] | Some text \<Rightarrow> text)
                  @ json_dumps
                      (log_entry (audit_entry (current_user s) op res msg (clock_start w) w))
                  @ [10])
        | Write_fails e \<Rightarrow>
            map_option
              (\<lambda>text. text @ file_handler_text (handling w 2) ERROR
                                (py ''Failed to write audit log: '' @ e))
              (log_file (log_attempt s op w)))"
    by blast
  have "log_file s' =
               (case log_write w of
                  Write_ok \<Rightarrow>
                    Some ((case log_file s of
                             None \<Rightarrow> []
                           | Some text \<Rightarrow>
                               text
                               @ file_handler_text (handling w 0) INFO
                                   (py ''Attempting privileged operation: '' @ description op)
                               @ file_handler_text (handling w 1) INFO
                                   (py ''Command: '' @ join (py '' '') (command op)))
                          @ json_dumps
                              (log_entry (audit_entry (current_user s) op res msg (clock_start w) w))
                          @ [10])
                | Write_fails e \<Rightarrow>
                    map_option
                      (\<lambda>text. text
                         @ file_handler_text (handling w 0) INFO
                             (py ''Attempting privileged operation: '' @ description op)
                         @ file_handler_text (handling w 1) INFO
                             (py ''Command: '' @ join (py '' '') (command op))
                         @ file_handler_text (handling w 2) ERROR
                             (py ''Failed to write audit log: '' @ e))
                      (log_file s))"
    unfolding f log_attempt_file
    by (cases "log_write w"; cases "log_file s") simp_all
  with x h show ?thesis by blast
qed

theorem execute_with_escalation_records_once_witness:
  "\<not> check_permission_required (example_state []) echo_operation
   \<and> (\<exists>s'. execute_with_escalation (example_state []) echo_operation
              (example_surroundings (Process_exits 0 (py ''hello'') []) Write_ok)
            = Some (s', Inr (SUCCESS, py ''hello''))
          \<and> session_operations s' = [example_entry]
          \<and> log_file s'
              = Some (py ''2024-05-17 09:30:00,250 - INFO - Attempting privileged operation: Say hello''
                      @ 10 # py ''2024-05-17 09:30:00,250 - INFO - Command: echo hello''
                      @ 10 # json_dumps (log_entry example_entry) @ [10]))"
proof -
  let ?w = "example_surroundings (Process_exits 0 (py ''hello'') []) Write_ok"
  have h: "\<not> check_permission_required (example_state []) echo_operation"
    by (simp add: check_permission_required_def echo_operation_def)
  from execute_with_escalation_records_once[of "example_state []" echo_operation ?w] h
  obtain s' res msg where
    x: "execute_with_escalation (example_state []) echo_operation ?w = Some (s', Inr (res, msg))" and
    o: "session_operations s'
       = session_operations (example_state [])
         @ [audit_entry (current_user (example_state [])) echo_operation res msg (clock_start ?w) ?w]" and
    f: "log_file s' =
       (case log_write ?w of
          Write_ok \<Rightarrow>
            Some ((case log_file (example_state []) of
                     None \<Rightarrow> []
                   | Some text \<Rightarrow>
                       text
                       @ file_handler_text (handling ?w 0) INFO
                           (py ''Attempting privileged operation: '' @ description echo_operation)
                       @ file_handler_text (handling ?w 1) INFO
                           (py ''Command: '' @ join (py '' '') (command echo_operation)))
                  @ json_dumps
                      (log_entry (audit_entry (current_user (example_state [])) echo_operation
                         res msg (clock_start ?w) ?w))
                  @ [10])
        | Write_fails e \<Rightarrow>
            map_option
              (\<lambda>text. text
                 @ file_handler_text (handling ?w 0) INFO
                     (py ''Attempting privileged operation: '' @ description echo_operation)
                 @ file_handler_text (handling ?w 1) INFO
                     (py ''Command: '' @ join (py '' '') (command echo_operation))
                 @ file_handler_text (handling ?w 2) ERROR
                     (py ''Failed to write audit log: '' @ e))
              (log_file (example_state [])))"
    by blast
  from example_run_ok x have r: "res = SUCCESS" "msg = py ''hello''" by auto
  have e: "audit_entry (current_user (example_state [])) echo_operation SUCCESS (py ''hello'')
             (clock_start ?w) ?w = example_entry"
    by (simp add: example_entry_def example_state_def)
  have i: "file_handler_text (handling ?w 0) INFO
             (py ''Attempting privileged operation: '' @ description echo_operation)
           = py ''2024-05-17 09:30:00,250 - INFO - Attempting privileged operation: Say hello'' @ [10]"
    "file_handler_text (handling ?w 1) INFO
             (py ''Command: '' @ join (py '' '') (command echo_operation))
           = py ''2024-05-17 09:30:00,250 - INFO - Command: echo hello'' @ [10]"
    by (simp_all add: file_handler_text_def format_record_def example_surroundings_def
        echo_operation_def py_def)
  have l: "log_write ?w = Write_ok" "log_file (example_state []) = Some []"
    "session_operations (example_state []) = []"
    by (simp_all add: example_surroundings_def example_state_def)
  from o f have "session_operations s' = [example_entry]"
    "log_file s'
       = Some (py ''2024-05-17 09:30:00,250 - INFO - Attempting privileged operation: Say hello''
               @ 10 # py ''2024-05-17 09:30:00,250 - INFO - Command: echo hello''
               @ 10 # json_dumps (log_entry example_entry) @ [10])"
    unfolding r e i l by simp_all
  with x r h show ?thesis by blast
qed

text \<open>
  The counterexample to C1 as stated: a BASIC operation whose process exits with 0
  while the append to the audit file fails. The call returns SUCCESS; the audit file
  holds the three lines of the logger and no record: \<open>get_audit_summary\<close> finds no
  entry in it.
\<close>

theorem audit_log_can_miss_record:
  "(case execute_with_escalation (example_state []) echo_operation
           (example_surroundings (Process_exits 0 (py ''hello'') []) (Write_fails (py ''disk full''))) of
      Some (s', Inr (res, msg)) \<Rightarrow>
        res = SUCCESS
        \<and> log_file s'
            = Some (py ''2024-05-17 09:30:00,250 - INFO - Attempting privileged operation: Say hello''
                    @ 10 # py ''2024-05-17 09:30:00,250 - INFO - Command: echo hello''
                    @ 10 # py ''2024-05-17 09:30:00,250 - ERROR - Failed to write audit log: disk full''
                    @ [10])
        \<and> map_option parsed_entries (log_file s') = Some []
    | _ \<Rightarrow> False)"
proof -
  let ?a = "py '' - INFO - Attempting privileged operation: Say hello''"
  let ?b = "py '' - INFO - Command: echo hello''"
  let ?c = "py '' - ERROR - Failed to write audit log: disk full''"
  let ?t = "py ''2024-05-17 09:30:00,250''"
  have n: "10 \<notin> set ?a" "13 \<notin> set ?a" "10 \<notin> set ?b" "13 \<notin> set ?b"
    "10 \<notin> set ?c" "13 \<notin> set ?c"
    by (simp_all add: py_def)
  have "readlines (?t @ ?a @ 10 # ?t @ ?b @ 10 # ?t @ ?c @ [10])
        = [?t @ ?a @ [10], ?t @ ?b @ [10], ?t @ ?c @ [10]]"
    by (simp only: readlines_example_line[OF n(1,2)] readlines_example_line[OF n(3,4)]
        readlines_example_line[OF n(5,6)]) (simp add: readlines_def)
  then have p: "parsed_entries (?t @ ?a @ 10 # ?t @ ?b @ 10 # ?t @ ?c @ [10]) = []"
    by (simp only: parsed_entries_def List.map_filter_simps example_record_no_json option.case)
  have t: "py ''2024-05-17 09:30:00,250 - INFO - Attempting privileged operation: Say hello''
             @ 10 # py ''2024-05-17 09:30:00,250 - INFO - Command: echo hello''
             @ 10 # py ''2024-05-17 09:30:00,250 - ERROR - Failed to write audit log: disk full''
             @ [10]
           = ?t @ ?a @ 10 # ?t @ ?b @ 10 # ?t @ ?c @ [10]"
    by (simp add: py_def)
  from example_run_write_fails obtain s' where
    "execute_with_escalation (example_state []) echo_operation
           (example_surroundings (Process_exits 0 (py ''hello'') [])
              (Write_fails (py ''disk full'')))
         = Some (s', Inr (SUCCESS, py ''hello''))"
    "log_file s'
       = Some (py ''2024-05-17 09:30:00,250 - INFO - Attempting privileged operation: Say hello''
               @ 10 # py ''2024-05-17 09:30:00,250 - INFO - Command: echo hello''
               @ 10 # py ''2024-05-17 09:30:00,250 - ERROR - Failed to write audit log: disk full''
               @ [10])"
    by blast
  then show ?thesis using p unfolding t by simp
qed

text \<open>
  Claim C2. If escalation is required and the consent gate returns false, the call
  returns USER_CANCELLED with its message, and \<open>subprocess.Popen\<close> is not called (nor
  \<open>process.kill()\<close>): the list of process starts is what it was.
\<close>

theorem declined_consent_spawns_nothing:
  assumes "check_permission_required s op" and "consent s op = Some (Inr False)"
  shows "\<exists>s'. execute_with_escalation s op w
                 = Some (s', Inr (USER_CANCELLED, py ''User cancelled the operation''))
              \<and> popen_calls s' = popen_calls s \<and> kill_calls s' = kill_calls s"
proof -
  from execute_gate_declined[OF assms, of w] obtain pos out where
    "execute_with_escalation s op w =
       Some (log_operation ((log_attempt s op w)\<lparr>stdin_pos := pos, stdout := out\<rparr>)
               op USER_CANCELLED (py ''User cancelled the operation'') (clock_start w) w,
             Inr (USER_CANCELLED, py ''User cancelled the operation''))" by blast
  then show ?thesis by (simp add: log_operation_effects log_attempt_frame)
qed

theorem declined_consent_spawns_nothing_witness:
  "check_permission_required (example_state [py ''maybe'', py '' No '']) chmod_operation
   \<and> consent (example_state [py ''maybe'', py '' No '']) chmod_operation = Some (Inr False)
   \<and> (\<exists>s'. execute_with_escalation (example_state [py ''maybe'', py '' No '']) chmod_operation
               (example_surroundings (Process_exits 0 [] []) Write_ok)
             = Some (s', Inr (USER_CANCELLED, py ''User cancelled the operation''))
           \<and> popen_calls s' = [] \<and> kill_calls s' = 0)"
proof -
  have h: "check_permission_required (example_state [py ''maybe'', py '' No '']) chmod_operation"
    by (simp add: check_permission_required_def chmod_operation_def example_state_def)
  have "popen_calls (example_state [py ''maybe'', py '' No '']) = []"
    "kill_calls (example_state [py ''maybe'', py '' No '']) = 0"
    by (simp_all add: example_state_def)
  with declined_consent_spawns_nothing[OF h consent_example_no,
         of "example_surroundings (Process_exits 0 [] []) Write_ok"]
  show ?thesis using h consent_example_no by simp
qed

text \<open>
  Claim C3, as amended. The claim as stated ("never raises") fails: the \<open>input()\<close> of
  the consent prompt raises \<open>EOFError\<close> at the end of standard input, and nothing
  between it and the caller catches it. What holds: whenever the consent gate is not
  consulted or gives an answer, the call returns a value, one of the four outcomes
  SUCCESS, PERMISSION_DENIED, OPERATION_FAILED, USER_CANCELLED with a message; a declined
  consent is USER_CANCELLED, and otherwise the outcome of the process decides: exit 0
  is SUCCESS, any other exit code, a timeout and any other exception are
  OPERATION_FAILED, a \<open>PermissionError\<close> is PERMISSION_DENIED.
\<close>

theorem execute_with_escalation_returns_value:
  assumes "\<not> check_permission_required s op \<or> (\<exists>b. consent s op = Some (Inr b))"
  shows "\<exists>s' res msg.
           execute_with_escalation s op w = Some (s', Inr (res, msg))
           \<and> res \<in> {SUCCESS, PERMISSION_DENIED, OPERATION_FAILED, USER_CANCELLED}
           \<and> (res, msg) =
               (if check_permission_required s op \<and> consent s op = Some (Inr False)
                then (USER_CANCELLED, py ''User cancelled the operation'')
                else
                  (case process w of
                     Process_exits rc out err \<Rightarrow>
                       if rc = 0
                       then (SUCCESS,
                             if out \<noteq> [] then out else py ''Operation completed successfully'')
                       else (OPERATION_FAILED,
                             py ''Command failed with return code '' @ str_int rc @ py '': '' @ err)
                   | Timeout_expired \<Rightarrow>
                       (OPERATION_FAILED,
                        py ''Operation timed out after '' @ str_int (timeout op) @ py '' seconds'')
                   | Permission_error \<Rightarrow>
                       (PERMISSION_DENIED, py ''Permission denied - unable to execute command'')
                   | Other_exception e \<Rightarrow> (OPERATION_FAILED, py ''Unexpected error: '' @ e)))"
proof -
  from execute_returns[OF assms, of w] obtain s' res msg where
    x: "execute_with_escalation s op w = Some (s', Inr (res, msg))" and
    r: "(res, msg) =
               (if check_permission_required s op \<and> consent s op = Some (Inr False)
                then (USER_CANCELLED, py ''User cancelled the operation'')
                else
                  (case process w of
                     Process_exits rc out err \<Rightarrow>
                       if rc = 0
                       then (SUCCESS,
                             if out \<noteq> [] then out else py ''Operation completed successfully'')
                       else (OPERATION_FAILED,
                             py ''Command failed with return code '' @ str_int rc @ py '': '' @ err)
                   | Timeout_expired \<Rightarrow>
                       (OPERATION_FAILED,
                        py ''Operation timed out after '' @ str_int (timeout op) @ py '' seconds'')
                   | Permission_error \<Rightarrow>
                       (PERMISSION_DENIED, py ''Permission denied - unable to execute command'')
                   | Other_exception e \<Rightarrow> (OPERATION_FAILED, py ''Unexpected error: '' @ e)))"
    by blast
  from r have "res \<in> {SUCCESS, PERMISSION_DENIED, OPERATION_FAILED, USER_CANCELLED}"
    by (cases "process w") (auto split: if_splits)
  with x r show ?thesis by blast
qed

theorem execute_with_escalation_returns_value_witness:
  "(\<exists>b. consent (example_state [py ''Y'']) chmod_operation = Some (Inr b))
   \<and> (\<exists>s' msg. execute_with_escalation (example_state [py ''Y'']) chmod_operation
                   (example_surroundings Permission_error Write_ok)
                 = Some (s', Inr (PERMISSION_DENIED, msg)))"
proof -
  have h: "\<exists>b. consent (example_state [py ''Y'']) chmod_operation = Some (Inr b)"
    using consent_example_yes by blast
  then have "\<not> check_permission_required (example_state [py ''Y'']) chmod_operation
             \<or> (\<exists>b. consent (example_state [py ''Y'']) chmod_operation = Some (Inr b))" by blast
  from execute_with_escalation_returns_value
         [OF this, of "example_surroundings Permission_error Write_ok"]
  show ?thesis using h consent_example_yes
    by (auto simp: example_surroundings_def)
qed

text \<open>
  The counterexample to C3 as stated: the operation of the scenario on an unprivileged
  manager whose standard input is at its end. The call raises \<open>EOFError\<close>.
\<close>

theorem execute_with_escalation_can_raise:
  "map_option snd
     (execute_with_escalation (example_state []) chmod_operation
        (example_surroundings (Process_exits 0 [] []) Write_ok))
   = Some (Inl EOFError)"
proof -
  have h: "check_permission_required (example_state []) chmod_operation"
    by (simp add: check_permission_required_def chmod_operation_def example_state_def)
  from execute_gate_raises[OF h consent_example_eof,
         of "example_surroundings (Process_exits 0 [] []) Write_ok"]
  show ?thesis by auto
qed

text \<open>
  Claim C4, as amended. The claim as stated ("the process is forcibly terminated")
  fails when \<open>process.kill()\<close> itself raises: the bare \<open>except\<close> around it swallows the
  exception, and the process goes on running. What holds: when the process does not
  exit within the timeout (\<open>communicate\<close> raises \<open>TimeoutExpired\<close>) on a call whose gate
  is passed, \<open>process.kill()\<close> is called once, which terminates the process unless it
  raises; the call returns OPERATION_FAILED with the message
  \<open>Operation timed out after <timeout> seconds\<close>. The same call on a process that exits
  with a code other than 0 returns OPERATION_FAILED too, without a call of \<open>kill()\<close>,
  and with another message, \<open>Command failed with return code <code>: <stderr>\<close>: the
  message tells the two apart.
\<close>

theorem timeout_is_operation_failed:
  assumes "\<not> check_permission_required s op \<or> consent s op = Some (Inr True)"
    and "process w = Timeout_expired"
    and "process w' = Process_exits rc out err" and "rc \<noteq> 0"
  shows "\<exists>s' s''.
           execute_with_escalation s op w
             = Some (s', Inr (OPERATION_FAILED,
                  py ''Operation timed out after '' @ str_int (timeout op) @ py '' seconds''))
           \<and> kill_calls s' = Suc (kill_calls s)
           \<and> survivors s' =
               (case kill w of
                  Kill_ok \<Rightarrow> survivors s
                | Kill_raises \<Rightarrow>
                    survivors s
                    @ [if check_permission_required s op then py ''sudo'' # command op
                       else command op])
           \<and> execute_with_escalation s op w'
               = Some (s'', Inr (OPERATION_FAILED,
                    py ''Command failed with return code '' @ str_int rc @ py '': '' @ err))
           \<and> kill_calls s'' = kill_calls s
           \<and> py ''Command failed with return code '' @ str_int rc @ py '': '' @ err
               \<noteq> py ''Operation timed out after '' @ str_int (timeout op) @ py '' seconds''"
proof -
  have d: "py ''Command failed with return code '' @ str_int rc @ py '': '' @ err
             \<noteq> py ''Operation timed out after '' @ str_int (timeout op) @ py '' seconds''"
    by (simp add: py_def)
  from execute_runs[OF assms(1), of w] assms(2) obtain s' where
    t: "execute_with_escalation s op w
          = Some (s', Inr (OPERATION_FAILED,
               py ''Operation timed out after '' @ str_int (timeout op) @ py '' seconds''))"
       "kill_calls s' = Suc (kill_calls s)"
       "survivors s' =
          (if kill w = Kill_raises
           then survivors s
                @ [if check_permission_required s op then py ''sudo'' # command op
                   else command op]
           else survivors s)"
    by auto
  from execute_runs[OF assms(1), of w'] assms(3,4) obtain s'' where
    n: "execute_with_escalation s op w'
          = Some (s'', Inr (OPERATION_FAILED,
               py ''Command failed with return code '' @ str_int rc @ py '': '' @ err))"
       "kill_calls s'' = kill_calls s"
    by auto
  from t(3) have "survivors s' =
               (case kill w of
                  Kill_ok \<Rightarrow> survivors s
                | Kill_raises \<Rightarrow>
                    survivors s
                    @ [if check_permission_required s op then py ''sudo'' # command op
                       else command op])"
    by (cases "kill w") simp_all
  with t(1,2) n d show ?thesis by blast
qed

theorem timeout_is_operation_failed_witness:
  "consent (example_state [py ''Y'']) chmod_operation = Some (Inr True)
   \<and> process (example_surroundings Timeout_expired Write_ok) = Timeout_expired
   \<and> process (example_surroundings (Process_exits 1 [] (py ''no'')) Write_ok)
       = Process_exits 1 [] (py ''no'')
   \<and> (\<exists>s' s''.
         execute_with_escalation (example_state [py ''Y'']) chmod_operation
           (example_surroundings Timeout_expired Write_ok)
         = Some (s', Inr (OPERATION_FAILED, py ''Operation timed out after 300 seconds''))
         \<and> kill_calls s' = 1 \<and> survivors s' = []
         \<and> execute_with_escalation (example_state [py ''Y'']) chmod_operation
             (example_surroundings (Process_exits 1 [] (py ''no'')) Write_ok)
           = Some (s'', Inr (OPERATION_FAILED, py ''Command failed with return code 1: no''))
         \<and> kill_calls s'' = 0)"
proof -
  let ?s = "example_state [py ''Y'']"
  let ?w = "example_surroundings Timeout_expired Write_ok"
  let ?w' = "example_surroundings (Process_exits 1 [] (py ''no'')) Write_ok"
  have p: "process ?w = Timeout_expired" "process ?w' = Process_exits 1 [] (py ''no'')"
    by (simp_all add: example_surroundings_def)
  have t: "str_int (timeout chmod_operation) = py ''300''" "str_int 1 = py ''1''"
    by (simp_all add: chmod_operation_def str_int_def digits.simps py_def)
  have k: "kill_calls ?s = 0" "survivors ?s = []" "kill ?w = Kill_ok"
    by (simp_all add: example_state_def example_surroundings_def)
  have g: "\<not> check_permission_required ?s chmod_operation
           \<or> consent ?s chmod_operation = Some (Inr True)"
    using consent_example_yes by blast
  from timeout_is_operation_failed[OF g p(1) p(2)]
  obtain s' s'' where
    "execute_with_escalation ?s chmod_operation ?w
       = Some (s', Inr (OPERATION_FAILED,
            py ''Operation timed out after '' @ str_int (timeout chmod_operation) @ py '' seconds''))"
    "kill_calls s' = Suc (kill_calls ?s)"
    "survivors s' =
       (case kill ?w of
          Kill_ok \<Rightarrow> survivors ?s
        | Kill_raises \<Rightarrow>
            survivors ?s
            @ [if check_permission_required ?s chmod_operation
               then py ''sudo'' # command chmod_operation else command chmod_operation])"
    "execute_with_escalation ?s chmod_operation ?w'
       = Some (s'', Inr (OPERATION_FAILED,
            py ''Command failed with return code '' @ str_int 1 @ py '': '' @ py ''no''))"
    "kill_calls s'' = kill_calls ?s"
    by auto
  then have "execute_with_escalation ?s chmod_operation ?w
         = Some (s', Inr (OPERATION_FAILED, py ''Operation timed out after 300 seconds''))
         \<and> kill_calls s' = 1 \<and> survivors s' = []
         \<and> execute_with_escalation ?s chmod_operation ?w'
           = Some (s'', Inr (OPERATION_FAILED, py ''Command failed with return code 1: no''))
         \<and> kill_calls s'' = 0"
    by (simp add: t k) (simp add: py_def)
  then show ?thesis using consent_example_yes p by blast
qed

text \<open>
  The counterexample to C4 as stated: the operation of the scenario, granted, runs as
  \<open>sudo chmod 755 /tmp/x\<close> and does not exit in time; \<open>kill()\<close> raises (the process is
  not alice's). The call returns OPERATION_FAILED with the timeout message, and the
  process is still running.
\<close>

theorem timed_out_process_survives:
  "(case execute_with_escalation (example_state [py ''Y'']) chmod_operation
           ((example_surroundings Timeout_expired Write_ok)\<lparr>kill := Kill_raises\<rparr>) of
      Some (s', Inr (res, msg)) \<Rightarrow>
        res = OPERATION_FAILED \<and> msg = py ''Operation timed out after 300 seconds''
        \<and> kill_calls s' = 1
        \<and> survivors s' = [[py ''sudo'', py ''chmod'', py ''755'', py ''/tmp/x'']]
    | _ \<Rightarrow> False)"
proof -
  let ?s = "example_state [py ''Y'']"
  let ?w = "(example_surroundings Timeout_expired Write_ok)\<lparr>kill := Kill_raises\<rparr>"
  have g: "\<not> check_permission_required ?s chmod_operation
           \<or> consent ?s chmod_operation = Some (Inr True)"
    using consent_example_yes by blast
  have c: "check_permission_required ?s chmod_operation"
    by (simp add: check_permission_required_def chmod_operation_def example_state_def)
  have p: "process ?w = Timeout_expired" "kill ?w = Kill_raises"
    by (simp_all add: example_surroundings_def)
  have t: "str_int (timeout chmod_operation) = py ''300''"
    by (simp add: chmod_operation_def str_int_def digits.simps py_def)
  have k: "kill_calls ?s = 0" "survivors ?s = []"
    "command chmod_operation = [py ''chmod'', py ''755'', py ''/tmp/x'']"
    by (simp_all add: example_state_def chmod_operation_def)
  from execute_runs[OF g, of ?w] obtain s' res msg where
    "execute_with_escalation ?s chmod_operation ?w = Some (s', Inr (res, msg))"
    "(res, msg) = (OPERATION_FAILED,
        py ''Operation timed out after '' @ str_int (timeout chmod_operation) @ py '' seconds'')"
    "kill_calls s' = Suc (kill_calls ?s)"
    "survivors s' = survivors ?s @ [py ''sudo'' # command chmod_operation]"
    unfolding p using c by auto
  then show ?thesis by (simp add: t k) (simp add: py_def)
qed

text \<open>
  Claim C5. A failing append changes neither whether the call returns, nor what it
  returns or raises: the call with a failing write yields the outcome and message of
  the same call with a working write. Its final state is the one of the call with the
  working write, except that the audit file has no line of the entry (it is what the
  two INFO records at the start of the call left) and that the error
  \<open>Failed to write audit log: ...\<close> has been given to the logger, as its last record.
\<close>

theorem audit_write_failure_isolated:
  "execute_with_escalation s op (w\<lparr>log_write := Write_fails e\<rparr>)
   = (case execute_with_escalation s op (w\<lparr>log_write := Write_ok\<rparr>) of
        None \<Rightarrow> None
      | Some (s', Inl x) \<Rightarrow> Some (s', Inl x)
      | Some (s', Inr r) \<Rightarrow>
          Some (logger_log (s'\<lparr>log_file := log_file (log_attempt s op w)\<rparr>)
                  ERROR (py ''Failed to write audit log: '' @ e) (handling w 2),
                Inr r))"
proof -
  let ?s1 = "log_attempt s op w"
  show ?thesis
  proof (cases "check_permission_required ?s1 op")
    case False
    then show ?thesis
      by (simp add: execute_with_escalation_def Let_def execute_and_log_write_fails
          log_attempt_write split: prod.splits)
  next
    case True
    show ?thesis
    proof (cases "request_permission ?s1 op")
      case None
      with True show ?thesis by (simp add: execute_with_escalation_def Let_def log_attempt_write)
    next
      case (Some a)
      obtain s2 r where a: "a = (s2, r)" by (cases a) auto
      from Some a have "consent ?s1 op = Some r" by (simp add: consent_def)
      from consent_request[OF this] Some a have "log_file s2 = log_file ?s1" by auto
      then show ?thesis using True Some a
        by (cases r)
           (simp_all add: execute_with_escalation_def Let_def execute_and_log_write_fails
             log_operation_write_fails log_attempt_write split: prod.splits)
    qed
  qed
qed

theorem audit_write_failure_isolated_witness:
  "map_option (\<lambda>p. (snd p, last (logger (fst p))))
     (execute_with_escalation (example_state []) echo_operation
        (example_surroundings (Process_exits 0 (py ''hello'') []) (Write_fails (py ''disk full''))))
   = Some (Inr (SUCCESS, py ''hello''), (ERROR, py ''Failed to write audit log: disk full''))"
proof -
  have "example_surroundings (Process_exits 0 (py ''hello'') []) (Write_fails (py ''disk full''))
        = (example_surroundings (Process_exits 0 (py ''hello'') []) Write_ok)
            \<lparr>log_write := Write_fails (py ''disk full'')\<rparr>"
    "example_surroundings (Process_exits 0 (py ''hello'') []) Write_ok
        = (example_surroundings (Process_exits 0 (py ''hello'') []) Write_ok)
            \<lparr>log_write := Write_ok\<rparr>"
    by (simp_all add: example_surroundings_def)
  moreover from example_run_ok obtain s' where
    "execute_with_escalation (example_state []) echo_operation
        (example_surroundings (Process_exits 0 (py ''hello'') []) Write_ok)
     = Some (s', Inr (SUCCESS, py ''hello''))" by blast
  ultimately show ?thesis
    using audit_write_failure_isolated
            [where s = "example_state []" and op = echo_operation
               and w = "example_surroundings (Process_exits 0 (py ''hello'') []) Write_ok"
               and e = "py ''disk full''"]
    by (simp add: logger_log_frame) (simp add: py_def)
qed

text \<open>
  Claim C8. No call returns ESCALATION_FAILED: a call that returns a result returns one
  of SUCCESS, PERMISSION_DENIED, OPERATION_FAILED and USER_CANCELLED.
\<close>

theorem never_escalation_failed:
  assumes "execute_with_escalation s op w = Some (s', Inr (res, msg))"
  shows "res \<noteq> ESCALATION_FAILED
         \<and> res \<in> {SUCCESS, PERMISSION_DENIED, OPERATION_FAILED, USER_CANCELLED}"
proof -
  have g: "\<not> check_permission_required s op \<or> (\<exists>b. consent s op = Some (Inr b))"
  proof (cases "check_permission_required s op")
    case False then show ?thesis by simp
  next
    case True
    show ?thesis
    proof (cases "consent s op")
      case None
      from execute_gate_silent[OF True None, of w] assms show ?thesis by simp
    next
      case (Some r)
      show ?thesis
      proof (cases r)
        case (Inl x)
        from execute_gate_raises[OF True, of x w] Some Inl assms show ?thesis by auto
      next
        case (Inr b)
        with Some show ?thesis by blast
      qed
    qed
  qed
  from execute_returns[OF g, of w] assms have
    "(res, msg) =
       (if check_permission_required s op \<and> consent s op = Some (Inr False)
        then (USER_CANCELLED, py ''User cancelled the operation'')
        else
          (case process w of
             Process_exits rc out err \<Rightarrow>
               if rc = 0
               then (SUCCESS, if out \<noteq> [] then out else py ''Operation completed successfully'')
               else (OPERATION_FAILED,
                     py ''Command failed with return code '' @ str_int rc @ py '': '' @ err)
           | Timeout_expired \<Rightarrow>
               (OPERATION_FAILED,
                py ''Operation timed out after '' @ str_int (timeout op) @ py '' seconds'')
           | Permission_error \<Rightarrow>
               (PERMISSION_DENIED, py ''Permission denied - unable to execute command'')
           | Other_exception e \<Rightarrow> (OPERATION_FAILED, py ''Unexpected error: '' @ e)))"
    by auto
  then show ?thesis
    by (cases "process w") (auto split: if_splits)
qed

theorem never_escalation_failed_witness:
  "(\<exists>s'. execute_with_escalation (example_state []) echo_operation
            (example_surroundings (Other_exception (py ''No such file'')) Write_ok)
          = Some (s', Inr (OPERATION_FAILED, py ''Unexpected error: No such file'')))
   \<and> OPERATION_FAILED \<noteq> ESCALATION_FAILED"
proof -
  have x: "\<exists>s'. execute_with_escalation (example_state []) echo_operation
            (example_surroundings (Other_exception (py ''No such file'')) Write_ok)
          = Some (s', Inr (OPERATION_FAILED, py ''Unexpected error: No such file''))"
    by (simp add: execute_with_escalation_def check_permission_required_def echo_operation_def
      execute_and_log_def run_process_def example_surroundings_def log_attempt_frame
      example_state_def Let_def py_def)
  then obtain s' where "execute_with_escalation (example_state []) echo_operation
            (example_surroundings (Other_exception (py ''No such file'')) Write_ok)
          = Some (s', Inr (OPERATION_FAILED, py ''Unexpected error: No such file''))" by blast
  from never_escalation_failed[OF this] x show ?thesis by blast
qed

text \<open>
  Claim C10. The entry is appended to the session history before the write to the file
  is attempted, whatever becomes of that write; so after any session (a sequence of
  calls, each in its own surroundings, failing writes included) the session history is
  the one from before, followed by exactly one entry for each call that returned a
  result, in the order of the calls. A call that raised left no entry.
\<close>

lemma execute_with_escalation_history:
  assumes "execute_with_escalation s op w = Some (s1, r)"
  shows "current_user s1 = current_user s
         \<and> session_operations s1
             = session_operations s
               @ (case r of
                    Inl x \<Rightarrow> []
                  | Inr (res, msg) \<Rightarrow> [audit_entry (current_user s) op res msg (clock_start w) w])"
proof (cases "\<not> check_permission_required s op \<or> (\<exists>b. consent s op = Some (Inr b))")
  case True
  from execute_returns[OF True, of w] obtain s' res msg where
    "execute_with_escalation s op w = Some (s', Inr (res, msg))"
    "session_operations s'
       = session_operations s @ [audit_entry (current_user s) op res msg (clock_start w) w]"
    "current_user s' = current_user s" by blast
  with assms show ?thesis by auto
next
  case False
  then have c: "check_permission_required s op" by blast
  show ?thesis
  proof (cases "consent s op")
    case None
    from execute_gate_silent[OF c None, of w] assms show ?thesis by simp
  next
    case (Some a)
    with False obtain x where "consent s op = Some (Inl x)" by (cases a) auto
    from execute_gate_raises[OF c this, of w] assms show ?thesis
      by (auto simp: log_attempt_frame)
  qed
qed

theorem session_history_complete:
  assumes "run_session s calls = Some (s', outs)"
  shows "get_session_history s'
           = get_session_history s @ completed_entries (current_user s) calls outs
         \<and> length outs = length calls"
  using assms
proof (induction calls arbitrary: s outs)
  case Nil
  then show ?case by (simp add: get_session_history_def)
next
  case (Cons c cs)
  from Cons.prems obtain s1 r rs where
    e: "execute_with_escalation s (fst c) (snd c) = Some (s1, r)" and
    t: "run_session s1 cs = Some (s', rs)" and o: "outs = r # rs"
    by (auto split: option.splits)
  from execute_with_escalation_history[OF e] have
    u: "current_user s1 = current_user s" and
    h: "session_operations s1
          = session_operations s
            @ (case r of
                 Inl x \<Rightarrow> []
               | Inr (res, msg) \<Rightarrow>
                   [audit_entry (current_user s) (fst c) res msg (clock_start (snd c)) (snd c)])"
    by simp_all
  from Cons.IH[OF t] u have
    "get_session_history s'
       = get_session_history s1 @ completed_entries (current_user s) cs rs"
    "length rs = length cs" by simp_all
  with h o show ?case
    by (cases r) (auto simp: get_session_history_def)
qed

theorem session_history_complete_witness:
  "(\<exists>s' e1 e2.
      run_session (example_state [])
        [(echo_operation,
          example_surroundings (Process_exits 0 (py ''hello'') []) (Write_fails (py ''disk full''))),
         (chmod_operation, example_surroundings (Process_exits 0 [] []) Write_ok),
         (echo_operation, example_surroundings (Process_exits 1 [] (py ''no'')) Write_ok)]
      = Some (s', [Inr (SUCCESS, py ''hello''), Inl EOFError,
                   Inr (OPERATION_FAILED, py ''Command failed with return code 1: no'')])
      \<and> get_session_history s' = [e1, e2]
      \<and> result e1 = py ''success'' \<and> result e2 = py ''operation_failed'')"
proof -
  let ?w1 = "example_surroundings (Process_exits 0 (py ''hello'') []) (Write_fails (py ''disk full''))"
  let ?w2 = "example_surroundings (Process_exits 0 [] []) Write_ok"
  let ?w3 = "example_surroundings (Process_exits 1 [] (py ''no'')) Write_ok"
  have 1: "\<exists>s1. execute_with_escalation (example_state []) echo_operation ?w1
             = Some (s1, Inr (SUCCESS, py ''hello''))
           \<and> stdin s1 = (\<lambda>n. None) \<and> stdin_pos s1 = 0 \<and> \<not> is_privileged s1
           \<and> current_user s1 = py ''alice''"
    by (simp add: execute_with_escalation_def check_permission_required_def echo_operation_def
      execute_and_log_def run_process_def example_surroundings_def log_operation_def
      log_attempt_def logger_log_def example_state_def Let_def py_def)
  then obtain s1 where s1: "execute_with_escalation (example_state []) echo_operation ?w1
             = Some (s1, Inr (SUCCESS, py ''hello''))"
      "stdin s1 = (\<lambda>n. None)" "stdin_pos s1 = 0" "\<not> is_privileged s1"
      "current_user s1 = py ''alice''" by blast
  have c2: "check_permission_required s1 chmod_operation"
    using s1(4) by (simp add: check_permission_required_def chmod_operation_def)
  have "consent s1 chmod_operation = Some (Inl EOFError)"
    using s1(2,3)
    by (simp add: consent_asks chmod_operation_def ask_to_proceed_eof[of "\<lambda>n. None" 0])
  from execute_gate_raises[OF c2 this, of ?w2] obtain s2 where
    s2: "execute_with_escalation s1 chmod_operation ?w2 = Some (s2, Inl EOFError)"
      "is_privileged s2 = is_privileged s1" by (auto simp: log_attempt_frame)
  have n3: "\<not> check_permission_required s2 echo_operation"
    by (simp add: check_permission_required_def echo_operation_def)
  from execute_returns[OF disjI1[OF n3], of ?w3] obtain s3 res msg where
    x3: "execute_with_escalation s2 echo_operation ?w3 = Some (s3, Inr (res, msg))" and
    r3: "(res, msg) =
           (if check_permission_required s2 echo_operation
               \<and> consent s2 echo_operation = Some (Inr False)
            then (USER_CANCELLED, py ''User cancelled the operation'')
            else
              (case process ?w3 of
                 Process_exits rc out err \<Rightarrow>
                   if rc = 0
                   then (SUCCESS,
                         if out \<noteq> [] then out else py ''Operation completed successfully'')
                   else (OPERATION_FAILED,
                         py ''Command failed with return code '' @ str_int rc @ py '': '' @ err)
               | Timeout_expired \<Rightarrow>
                   (OPERATION_FAILED,
                    py ''Operation timed out after '' @ str_int (timeout echo_operation)
                    @ py '' seconds'')
               | Permission_error \<Rightarrow>
                   (PERMISSION_DENIED, py ''Permission denied - unable to execute command'')
               | Other_exception e \<Rightarrow> (OPERATION_FAILED, py ''Unexpected error: '' @ e)))"
    by blast
  from r3 n3 have "(res, msg) = (OPERATION_FAILED, py ''Command failed with return code 1: no'')"
    by (simp add: example_surroundings_def str_int_def digits.simps py_def)
  with x3 have
    s3: "execute_with_escalation s2 echo_operation ?w3
          = Some (s3, Inr (OPERATION_FAILED, py ''Command failed with return code 1: no''))"
    by simp
  have run: "run_session (example_state [])
        [(echo_operation, ?w1), (chmod_operation, ?w2), (echo_operation, ?w3)]
      = Some (s3, [Inr (SUCCESS, py ''hello''), Inl EOFError,
                   Inr (OPERATION_FAILED, py ''Command failed with return code 1: no'')])"
    by (simp add: s1 s2 s3)
  from session_history_complete[OF run]
  have "get_session_history s3
          = [audit_entry (py ''alice'') echo_operation SUCCESS (py ''hello'') (clock_start ?w1) ?w1,
             audit_entry (py ''alice'') echo_operation OPERATION_FAILED
               (py ''Command failed with return code 1: no'') (clock_start ?w3) ?w3]"
    by (simp add: get_session_history_def example_state_def)
  moreover have "result (audit_entry (py ''alice'') echo_operation SUCCESS (py ''hello'')
                    (clock_start ?w1) ?w1) = py ''success''"
    "result (audit_entry (py ''alice'') echo_operation OPERATION_FAILED
               (py ''Command failed with return code 1: no'') (clock_start ?w3) ?w3)
       = py ''operation_failed''"
    by (simp_all add: audit_entry_def)
  ultimately show ?thesis using run by blast
qed

section \<open>Claims about the audit file\<close>

text \<open>
  Claim C9, as amended. A \<open>str\<close> is a sequence of code points below \<open>0x110000\<close>
  (\<open>is_entry\<close> says that the strings of the entry are of that kind). The claim as
  stated ("for every AuditEntry") fails for a string in which a high surrogate
  (U+D800..U+DBFF) is immediately followed by a low surrogate (U+DC00..U+DFFF):
  \<open>json.dumps\<close> writes the two escapes \<open>\uXXXX\uXXXX\<close> for them, which \<open>json.loads\<close>
  reads as the one code point of the pair. What holds: when none of the four strings
  \<open>operation\<close>, \<open>permission_level\<close>, \<open>result\<close> and \<open>user\<close> has such two neighbours, the
  file that holds the line \<open>_log_operation\<close> writes for the entry is read by
  \<open>get_audit_summary\<close> as exactly one entry, whose \<open>operation\<close>, \<open>permission_level\<close>,
  \<open>result\<close> and \<open>user\<close> are the strings of the original entry.
\<close>

theorem log_line_round_trip:
  assumes "is_entry e"
    and "\<not> has_surrogate_pair (operation e)"
    and "\<not> has_surrogate_pair (entry_permission_level e)"
    and "\<not> has_surrogate_pair (result e)"
    and "\<not> has_surrogate_pair (user e)"
  shows "\<exists>v. parsed_entries (json_dumps (log_entry e) @ [10]) = [v]
           \<and> getitem v (py ''operation'') = Inr (JStr (operation e))
           \<and> getitem v (py ''permission_level'') = Inr (JStr (entry_permission_level e))
           \<and> getitem v (py ''result'') = Inr (JStr (result e))
           \<and> getitem v (py ''user'') = Inr (JStr (user e))"
  using parsed_log_line[OF assms(1)] assms(2-5)
  by (simp add: join_surrogates_id)

theorem log_line_round_trip_witness:
  "is_entry example_entry
   \<and> \<not> has_surrogate_pair (operation example_entry)
   \<and> \<not> has_surrogate_pair (entry_permission_level example_entry)
   \<and> \<not> has_surrogate_pair (result example_entry)
   \<and> \<not> has_surrogate_pair (user example_entry)
   \<and> (\<exists>v. parsed_entries (json_dumps (log_entry example_entry) @ [10]) = [v]
          \<and> getitem v (py ''operation'') = Inr (JStr (py ''echo hello''))
          \<and> getitem v (py ''permission_level'') = Inr (JStr (py ''basic''))
          \<and> getitem v (py ''result'') = Inr (JStr (py ''success''))
          \<and> getitem v (py ''user'') = Inr (JStr (py ''alice'')))"
proof -
  have fields: "operation example_entry = py ''echo hello''"
    "entry_permission_level example_entry = py ''basic''"
    "result example_entry = py ''success''"
    "user example_entry = py ''alice''"
    by (simp_all add: example_entry_def audit_entry_def echo_operation_def py_def)
  have e: "is_entry example_entry"
    by (simp add: is_entry_def is_str_def example_entry_def audit_entry_def
        echo_operation_def py_def)
  have p: "\<not> has_surrogate_pair (py ''echo hello'')" "\<not> has_surrogate_pair (py ''basic'')"
    "\<not> has_surrogate_pair (py ''success'')" "\<not> has_surrogate_pair (py ''alice'')"
    by (simp_all add: has_surrogate_pair_def py_def)
  from log_line_round_trip[of example_entry] e p show ?thesis
    by (simp only: fields simp_thms)
qed

text \<open>
  The counterexample to C9 as stated: the entry for the command whose argument is the
  high surrogate U+D83D followed by the low surrogate U+DE00. Its \<open>operation\<close> has seven
  code points; the \<open>operation\<close> read back from its line has six, the last one U+1F600.
\<close>

theorem surrogate_pair_read_as_one:
  "operation surrogate_entry = py ''echo '' @ [0xD83D, 0xDE00]
   \<and> map (\<lambda>v. getitem v (py ''operation''))
         (parsed_entries (json_dumps (log_entry surrogate_entry) @ [10]))
       = [Inr (JStr (py ''echo '' @ [0x1F600]))]"
proof -
  have op: "operation surrogate_entry = py ''echo '' @ [0xD83D, 0xDE00]"
    by (simp add: surrogate_entry_def surrogate_operation_def audit_entry_def
        echo_operation_def py_def)
  have e: "is_entry surrogate_entry"
    by (simp add: is_entry_def is_str_def surrogate_entry_def surrogate_operation_def
        audit_entry_def echo_operation_def py_def)
  have j: "join_surrogates (py ''echo '' @ [0xD83D, 0xDE00]) = py ''echo '' @ [0x1F600]"
    by (simp add: py_def)
  from parsed_log_line[OF e] obtain v where
    "parsed_entries (json_dumps (log_entry surrogate_entry) @ [10]) = [v]"
    "getitem v (py ''operation'') = Inr (JStr (join_surrogates (operation surrogate_entry)))"
    by blast
  then show ?thesis by (simp only: op j list.map simp_thms)
qed

text \<open>
  Claim C7, at \<open>limit = 0\<close>. The example manager runs \<open>echo hello\<close>, which leaves two
  lines of the logger and the line of one record in the audit file;
  \<open>get_audit_summary(0)\<close> on that file reports \<open>total_entries = 1\<close>, where the claim says
  \<open>min(1, 0) = 0\<close>: \<open>entries[-limit:]\<close> is \<open>entries[0:]\<close> for \<open>limit = 0\<close>, the whole
  list.
\<close>

theorem audit_summary_limit_zero:
  "map_option (\<lambda>p. total_entries (get_audit_summary (fst p) 0))
     (execute_with_escalation (example_state []) echo_operation
        (example_surroundings (Process_exits 0 (py ''hello'') []) Write_ok))
   = Some (Some 1)"
proof -
  let ?a = "py '' - INFO - Attempting privileged operation: Say hello''"
  let ?b = "py '' - INFO - Command: echo hello''"
  let ?t = "py ''2024-05-17 09:30:00,250''"
  let ?j = "json_dumps (log_entry example_entry) @ [10]"
  have n: "10 \<notin> set ?a" "13 \<notin> set ?a" "10 \<notin> set ?b" "13 \<notin> set ?b"
    by (simp_all add: py_def)
  have "readlines (?t @ ?a @ 10 # ?t @ ?b @ 10 # ?j) = (?t @ ?a @ [10]) # (?t @ ?b @ [10]) # readlines ?j"
    by (simp only: readlines_example_line[OF n(1,2)] readlines_example_line[OF n(3,4)])
  then have p: "parsed_entries (?t @ ?a @ 10 # ?t @ ?b @ 10 # ?j) = parsed_entries ?j"
    by (simp only: parsed_entries_def List.map_filter_simps example_record_no_json option.case)
  have t: "py ''2024-05-17 09:30:00,250 - INFO - Attempting privileged operation: Say hello''
             @ 10 # py ''2024-05-17 09:30:00,250 - INFO - Command: echo hello'' @ 10 # ?j
           = ?t @ ?a @ 10 # ?t @ ?b @ 10 # ?j"
    by (simp add: py_def del: json_dumps.simps)
  from example_run_ok obtain s' where run:
    "execute_with_escalation (example_state []) echo_operation
        (example_surroundings (Process_exits 0 (py ''hello'') []) Write_ok)
     = Some (s', Inr (SUCCESS, py ''hello''))"
    "log_file s' = Some (?t @ ?a @ 10 # ?t @ ?b @ 10 # ?j)"
    unfolding t by blast
  have e: "is_entry example_entry"
    by (simp add: is_entry_def is_str_def example_entry_def audit_entry_def
        echo_operation_def py_def)
  have fields: "join_surrogates (entry_permission_level example_entry) = py ''basic''"
    "join_surrogates (result example_entry) = py ''success''"
    by (simp_all add: example_entry_def audit_entry_def echo_operation_def py_def)
  from parsed_log_line[OF e] obtain v where v:
    "parsed_entries (json_dumps (log_entry example_entry) @ [10]) = [v]"
    "getitem v (py ''permission_level'') = Inr (JStr (py ''basic''))"
    "getitem v (py ''result'') = Inr (JStr (py ''success''))"
    unfolding fields by blast
  have "summarize [v] 0 = Summary 1 1 0 0 [v]"
    by (simp add: summarize_def Let_def slice_from_def result_is_success_def
        result_is_failure_def level_is_elevated_def v(2,3)) (simp add: py_def)
  then have "total_entries (get_audit_summary s' 0) = Some 1"
    by (simp add: get_audit_summary_def run(2) p v(1))
  with run(1) show ?thesis by simp
qed

end
